theory Spec2Isabelle
  imports Complex_Main "HOL-Library.Log_Nat"
begin

section \<open>Python floats: IEEE 754 binary64, round to nearest, ties to even\<close>

text \<open>
  The converter computes with Python \<^verbatim>\<open>float\<close> values: \<^verbatim>\<open>st.number_input(..., value=1.0)\<close>
  returns a float, and every arithmetic operator of lines 142--152 and 191 of
  \<^verbatim>\<open>unit_converter.py\<close> is a binary64 operation. A float is modelled by its sign bit and
  its magnitude (an exact rational), an infinity by its sign bit, and there is one NaN.
  Both zeros exist: \<open>Finite False 0\<close> is \<^verbatim>\<open>0.0\<close> and \<open>Finite True 0\<close> is \<^verbatim>\<open>-0.0\<close>.
\<close>

datatype float64 = Finite bool rat | Infinity bool | NaN

definition signed :: "bool \<Rightarrow> rat \<Rightarrow> rat" where
  "signed s m = (if s then - m else m)"

definition pow2 :: "int \<Rightarrow> rat" where
  "pow2 e = (if 0 \<le> e then 2 ^ nat e else 1 / 2 ^ nat (- e))"

text \<open>The nearest integer, a tie going to the even neighbour.\<close>

definition round_half_even :: "rat \<Rightarrow> int" where
  "round_half_even x =
     (let n = \<lfloor>x\<rfloor>; r = x - of_int n
      in if r < 1 / 2 then n
         else if 1 / 2 < r then n + 1
         else if even n then n else n + 1)"

text \<open>\<open>ilog2 q\<close> is the binary exponent of a positive rational: \<open>2 ^ ilog2 q \<le> q < 2 ^ (ilog2 q + 1)\<close>.\<close>

definition ilog2 :: "rat \<Rightarrow> int" where
  "ilog2 q = (case quotient_of q of (a, b) \<Rightarrow>
                let d = bitlen a - bitlen b in if pow2 d \<le> q then d else d - 1)"

text \<open>
  Rounding a magnitude \<open>q \<ge> 0\<close> to binary64: 53 significant bits, the exponent of the
  last place never below \<open>-1074\<close> (subnormals), and overflow to infinity when the rounded
  magnitude reaches \<open>2 ^ 1024\<close>. The sign bit is carried along, so a result that
  underflows to zero keeps the sign of the exact result.
\<close>

definition round_float :: "bool \<Rightarrow> rat \<Rightarrow> float64" where
  "round_float s q =
     (if q = 0 then Finite s 0
      else let e = max (ilog2 q) (- 1022);
               ulp = pow2 (e - 52);
               r = of_int (round_half_even (q / ulp)) * ulp
           in if pow2 1024 \<le> r then Infinity s else Finite s r)"

text \<open>A decimal literal of the source denotes the float nearest to it.\<close>

definition float_lit :: "rat \<Rightarrow> float64" where
  "float_lit q = round_float (q < 0) \<bar>q\<bar>"

text \<open>The values that are floats: a magnitude that rounding leaves alone.\<close>

definition is_finite :: "float64 \<Rightarrow> bool" where
  "is_finite x = (case x of Finite s m \<Rightarrow> 0 \<le> m \<and> round_float s m = Finite s m | _ \<Rightarrow> False)"

definition is_float64 :: "float64 \<Rightarrow> bool" where
  "is_float64 x = (case x of Finite s m \<Rightarrow> is_finite x | _ \<Rightarrow> True)"

text \<open>Python's \<^verbatim>\<open>==\<close> on floats: NaN equals nothing, the two zeros are equal.\<close>

fun float_eq :: "float64 \<Rightarrow> float64 \<Rightarrow> bool" where
  "float_eq (Finite s m) (Finite t n) = (signed s m = signed t n)"
| "float_eq (Infinity s) (Infinity t) = (s = t)"
| "float_eq _ _ = False"

fun float_neg :: "float64 \<Rightarrow> float64" where
  "float_neg (Finite s m) = Finite (\<not> s) m"
| "float_neg (Infinity s) = Infinity (\<not> s)"
| "float_neg NaN = NaN"

fun float_add :: "float64 \<Rightarrow> float64 \<Rightarrow> float64" where
  "float_add (Finite s m) (Finite t n) =
     (let x = signed s m + signed t n
      in if x = 0 then Finite (s \<and> t) 0 else round_float (x < 0) \<bar>x\<bar>)"
| "float_add (Finite s m) (Infinity t) = Infinity t"
| "float_add (Infinity s) (Finite t n) = Infinity s"
| "float_add (Infinity s) (Infinity t) = (if s = t then Infinity s else NaN)"
| "float_add _ _ = NaN"

definition float_sub :: "float64 \<Rightarrow> float64 \<Rightarrow> float64" where
  "float_sub x y = float_add x (float_neg y)"

fun float_mul :: "float64 \<Rightarrow> float64 \<Rightarrow> float64" where
  "float_mul (Finite s m) (Finite t n) = round_float (s \<noteq> t) (m * n)"
| "float_mul (Finite s m) (Infinity t) = (if m = 0 then NaN else Infinity (s \<noteq> t))"
| "float_mul (Infinity s) (Finite t n) = (if n = 0 then NaN else Infinity (s \<noteq> t))"
| "float_mul (Infinity s) (Infinity t) = Infinity (s \<noteq> t)"
| "float_mul _ _ = NaN"

text \<open>Division by a divisor that is not zero; Python raises before dividing by zero.\<close>

fun float_div :: "float64 \<Rightarrow> float64 \<Rightarrow> float64" where
  "float_div (Finite s m) (Finite t n) = round_float (s \<noteq> t) (m / n)"
| "float_div (Finite s m) (Infinity t) = Finite (s \<noteq> t) 0"
| "float_div (Infinity s) (Finite t n) = Infinity (s \<noteq> t)"
| "float_div _ _ = NaN"

section \<open>Python errors and values\<close>

datatype error = KeyError string | TypeError | ZeroDivisionError | OverflowError

definition bind :: "error + 'a \<Rightarrow> ('a \<Rightarrow> error + 'b) \<Rightarrow> error + 'b" where
  "bind r f = (case r of Inl e \<Rightarrow> Inl e | Inr x \<Rightarrow> f x)"

definition is_zero :: "float64 \<Rightarrow> bool" where
  "is_zero x = (case x of Finite s m \<Rightarrow> m = 0 | _ \<Rightarrow> False)"

definition float_truediv :: "float64 \<Rightarrow> float64 \<Rightarrow> error + float64" where
  "float_truediv x y = (if is_zero y then Inl ZeroDivisionError else Inr (float_div x y))"

text \<open>The values stored in the table: int and float factors, and the temperature tags.\<close>

datatype pyval = PyInt int | PyFloat float64 | PyStr string

text \<open>An int operand of a float operation is converted first (\<^verbatim>\<open>OverflowError\<close> when too large).\<close>

definition float_of_int :: "int \<Rightarrow> error + float64" where
  "float_of_int i = (case round_float (i < 0) (of_int \<bar>i\<bar>) of
                       Infinity s \<Rightarrow> Inl OverflowError
                     | x \<Rightarrow> Inr x)"

definition as_float :: "pyval \<Rightarrow> error + float64" where
  "as_float y = (case y of PyInt i \<Rightarrow> float_of_int i
                          | PyFloat f \<Rightarrow> Inr f
                          | PyStr s \<Rightarrow> Inl TypeError)"

text \<open>
  \<^verbatim>\<open>x + y\<close>, \<^verbatim>\<open>x - y\<close>, \<^verbatim>\<open>x * y\<close> and \<^verbatim>\<open>x / y\<close> for a float \<open>x\<close>: the right operand is
  coerced, a string operand is a \<^verbatim>\<open>TypeError\<close>, a zero divisor a \<^verbatim>\<open>ZeroDivisionError\<close>.
\<close>

definition py_add :: "float64 \<Rightarrow> pyval \<Rightarrow> error + float64" where
  "py_add x y = bind (as_float y) (\<lambda>f. Inr (float_add x f))"

definition py_sub :: "float64 \<Rightarrow> pyval \<Rightarrow> error + float64" where
  "py_sub x y = bind (as_float y) (\<lambda>f. Inr (float_sub x f))"

definition py_mul :: "float64 \<Rightarrow> pyval \<Rightarrow> error + float64" where
  "py_mul x y = bind (as_float y) (\<lambda>f. Inr (float_mul x f))"

definition py_truediv :: "float64 \<Rightarrow> pyval \<Rightarrow> error + float64" where
  "py_truediv x y = bind (as_float y) (\<lambda>f. float_truediv x f)"

text \<open>
  A dict literal with distinct keys, in insertion order. \<open>getitem\<close> is \<^verbatim>\<open>d[k]\<close>, which
  raises \<^verbatim>\<open>KeyError(k)\<close> for a missing key; \<open>keys\<close> is \<^verbatim>\<open>list(d.keys())\<close>.
\<close>

type_synonym 'v pydict = "(string \<times> 'v) list"

definition getitem :: "'v pydict \<Rightarrow> string \<Rightarrow> error + 'v" where
  "getitem d k = (case map_of d k of None \<Rightarrow> Inl (KeyError k) | Some v \<Rightarrow> Inr v)"

definition keys :: "'v pydict \<Rightarrow> string list" where
  "keys d = map fst d"

section \<open>The conversion table\<close>

type_synonym table = "pyval pydict pydict"

definition CONVERSIONS :: table where
  "CONVERSIONS =
   [(''Length'',
      [(''Meters'', PyInt 1),
       (''Kilometers'', PyInt 1000),
       (''Centimeters'', PyFloat (float_lit 0.01)),
       (''Millimeters'', PyFloat (float_lit 0.001)),
       (''Miles'', PyFloat (float_lit 1609.34)),
       (''Yards'', PyFloat (float_lit 0.9144)),
       (''Feet'', PyFloat (float_lit 0.3048)),
       (''Inches'', PyFloat (float_lit 0.0254)),
       (''Nautical Miles'', PyInt 1852)]),
    (''Weight/Mass'',
      [(''Kilograms'', PyInt 1),
       (''Grams'', PyFloat (float_lit 0.001)),
       (''Milligrams'', PyFloat (float_lit 0.000001)),
       (''Metric Tons'', PyInt 1000),
       (''Pounds'', PyFloat (float_lit 0.453592)),
       (''Ounces'', PyFloat (float_lit 0.0283495)),
       (''Stone'', PyFloat (float_lit 6.35029))]),
    (''Temperature'',
      [(''Celsius'', PyStr ''C''),
       (''Fahrenheit'', PyStr ''F''),
       (''Kelvin'', PyStr ''K'')]),
    (''Area'',
      [(''Square Meters'', PyInt 1),
       (''Square Kilometers'', PyInt 1000000),
       (''Square Miles'', PyFloat (float_lit 2589988.11)),
       (''Square Yards'', PyFloat (float_lit 0.836127)),
       (''Square Feet'', PyFloat (float_lit 0.092903)),
       (''Acres'', PyFloat (float_lit 4046.86)),
       (''Hectares'', PyInt 10000)]),
    (''Volume'',
      [(''Cubic Meters'', PyInt 1),
       (''Liters'', PyFloat (float_lit 0.001)),
       (''Milliliters'', PyFloat (float_lit 0.000001)),
       (''Cubic Feet'', PyFloat (float_lit 0.0283168)),
       (''Cubic Inches'', PyFloat (float_lit 0.0000163871)),
       (''Gallons (US)'', PyFloat (float_lit 0.00378541)),
       (''Quarts (US)'', PyFloat (float_lit 0.000946353)),
       (''Pints (US)'', PyFloat (float_lit 0.000473176)),
       (''Fluid Ounces (US)'', PyFloat (float_lit 0.0000295735))]),
    (''Speed'',
      [(''Meters per Second'', PyInt 1),
       (''Kilometers per Hour'', PyFloat (float_lit 0.277778)),
       (''Miles per Hour'', PyFloat (float_lit 0.44704)),
       (''Knots'', PyFloat (float_lit 0.514444)),
       (''Feet per Second'', PyFloat (float_lit 0.3048))]),
    (''Time'',
      [(''Seconds'', PyInt 1),
       (''Minutes'', PyInt 60),
       (''Hours'', PyInt 3600),
       (''Days'', PyInt 86400),
       (''Weeks'', PyInt 604800),
       (''Months'', PyInt 2592000),
       (''Years'', PyInt 31536000)]),
    (''Digital Storage'',
      [(''Bytes'', PyInt 1),
       (''Kilobytes'', PyInt 1024),
       (''Megabytes'', PyInt 1048576),
       (''Gigabytes'', PyInt 1073741824),
       (''Terabytes'', PyInt 1099511627776)]),
    (''Energy'',
      [(''Joules'', PyInt 1),
       (''Kilojoules'', PyInt 1000),
       (''Calories'', PyFloat (float_lit 4.184)),
       (''Kilocalories'', PyInt 4184),
       (''Watt-hours'', PyInt 3600),
       (''Kilowatt-hours'', PyInt 3600000),
       (''Electron-volts'', PyFloat (float_lit (1.602177 / 10 ^ 19)))]),
    (''Pressure'',
      [(''Pascal'', PyInt 1),
       (''Kilopascal'', PyInt 1000),
       (''Bar'', PyInt 100000),
       (''PSI'', PyFloat (float_lit 6894.76)),
       (''Atmosphere'', PyInt 101325),
       (''Millimeter of Mercury'', PyFloat (float_lit 133.322))])]"

section \<open>The conversion engine\<close>

text \<open>
  \<^verbatim>\<open>convert_temperature\<close>, lines 138--153. \<^verbatim>\<open>(value - 32) * 5/9\<close> multiplies before it
  divides, and so does \<^verbatim>\<open>celsius * 9/5\<close>. A unit that is neither Fahrenheit nor Kelvin
  takes the \<^verbatim>\<open>else\<close> branch on the way in, and the final \<^verbatim>\<open>return celsius\<close> on the way out.
\<close>

definition convert_temperature :: "float64 \<Rightarrow> string \<Rightarrow> string \<Rightarrow> error + float64" where
  "convert_temperature value from_unit to_unit =
     bind (if from_unit = ''Fahrenheit''
           then bind (py_sub value (PyInt 32)) (\<lambda>a.
                bind (py_mul a (PyInt 5)) (\<lambda>b.
                py_truediv b (PyInt 9)))
           else if from_unit = ''Kelvin''
           then py_sub value (PyFloat (float_lit 273.15))
           else Inr value)
      (\<lambda>celsius.
         if to_unit = ''Fahrenheit''
         then bind (py_mul celsius (PyInt 9)) (\<lambda>a.
              bind (py_truediv a (PyInt 5)) (\<lambda>b.
              py_add b (PyInt 32)))
         else if to_unit = ''Kelvin''
         then py_add celsius (PyFloat (float_lit 273.15))
         else Inr celsius)"

text \<open>
  The body of the Convert button, lines 187--191, reading the global table \<open>tbl\<close>.
  The left operand of \<^verbatim>\<open>/\<close>, with its two subscripts and its product, is evaluated before
  the right one.
\<close>

definition convert_on :: "table \<Rightarrow> string \<Rightarrow> string \<Rightarrow> string \<Rightarrow> float64 \<Rightarrow> error + float64" where
  "convert_on tbl category from_unit to_unit value =
     (if category = ''Temperature''
      then convert_temperature value from_unit to_unit
      else bind (getitem tbl category) (\<lambda>d.
           bind (getitem d from_unit) (\<lambda>f.
           bind (py_mul value f) (\<lambda>p.
           bind (getitem tbl category) (\<lambda>d'.
           bind (getitem d' to_unit) (\<lambda>t.
           py_truediv p t))))))"

definition convert :: "string \<Rightarrow> string \<Rightarrow> string \<Rightarrow> float64 \<Rightarrow> error + float64" where
  "convert = convert_on CONVERSIONS"

text \<open>The lists behind the select boxes, lines 169, 182 and 183.\<close>

definition categories_on :: "table \<Rightarrow> string list" where
  "categories_on tbl = keys tbl"

definition units_on :: "table \<Rightarrow> string \<Rightarrow> error + string list" where
  "units_on tbl category = bind (getitem tbl category) (\<lambda>d. Inr (keys d))"

definition categories :: "string list" where
  "categories = categories_on CONVERSIONS"

definition units :: "string \<Rightarrow> error + string list" where
  "units = units_on CONVERSIONS"

text \<open>The scale factor stored for a unit, as the float the arithmetic uses.\<close>

definition factor :: "string \<Rightarrow> string \<Rightarrow> error + float64" where
  "factor category unit =
     bind (getitem CONVERSIONS category) (\<lambda>d. bind (getitem d unit) as_float)"

section \<open>The two temperature steps, as the specification words them\<close>

definition normalize_to_celsius :: "string \<Rightarrow> float64 \<Rightarrow> float64 option" where
  "normalize_to_celsius from_unit value =
     (if from_unit = ''Fahrenheit''
      then Some (float_div (float_mul (float_sub value (float_lit 32)) (float_lit 5)) (float_lit 9))
      else if from_unit = ''Kelvin'' then Some (float_sub value (float_lit 273.15))
      else if from_unit = ''Celsius'' then Some value
      else None)"

definition celsius_to_unit :: "string \<Rightarrow> float64 \<Rightarrow> float64 option" where
  "celsius_to_unit to_unit celsius =
     (if to_unit = ''Fahrenheit''
      then Some (float_add (float_div (float_mul celsius (float_lit 9)) (float_lit 5)) (float_lit 32))
      else if to_unit = ''Kelvin'' then Some (float_add celsius (float_lit 273.15))
      else if to_unit = ''Celsius'' then Some celsius
      else None)"

section \<open>The same statements in exact rational arithmetic\<close>

text \<open>
  The specification also speaks of the conversion in exact arithmetic. Here every constant
  is the number the source stores, and every operation is computed without rounding.
\<close>

definition exact_of :: "pyval \<Rightarrow> error + rat" where
  "exact_of y = (case y of PyInt i \<Rightarrow> Inr (of_int i)
                          | PyFloat (Finite s m) \<Rightarrow> Inr (signed s m)
                          | PyFloat _ \<Rightarrow> Inl OverflowError
                          | PyStr s \<Rightarrow> Inl TypeError)"

definition exact_truediv :: "rat \<Rightarrow> rat \<Rightarrow> error + rat" where
  "exact_truediv x y = (if y = 0 then Inl ZeroDivisionError else Inr (x / y))"

definition convert_temperature_exact :: "rat \<Rightarrow> string \<Rightarrow> string \<Rightarrow> error + rat" where
  "convert_temperature_exact value from_unit to_unit =
     bind (exact_of (PyFloat (float_lit 273.15))) (\<lambda>k.
       let celsius = (if from_unit = ''Fahrenheit'' then (value - 32) * 5 / 9
                      else if from_unit = ''Kelvin'' then value - k
                      else value)
       in Inr (if to_unit = ''Fahrenheit'' then celsius * 9 / 5 + 32
               else if to_unit = ''Kelvin'' then celsius + k
               else celsius))"

definition convert_exact :: "string \<Rightarrow> string \<Rightarrow> string \<Rightarrow> rat \<Rightarrow> error + rat" where
  "convert_exact category from_unit to_unit value =
     (if category = ''Temperature''
      then convert_temperature_exact value from_unit to_unit
      else bind (getitem CONVERSIONS category) (\<lambda>d.
           bind (getitem d from_unit) (\<lambda>f.
           bind (exact_of f) (\<lambda>x.
           bind (getitem CONVERSIONS category) (\<lambda>d'.
           bind (getitem d' to_unit) (\<lambda>t.
           bind (exact_of t) (\<lambda>y.
           exact_truediv (value * x) y)))))))"

section \<open>Invocations against the global table\<close>

text \<open>
  \<^verbatim>\<open>CONVERSIONS\<close> is a module global, a mutable dict. An invocation is modelled as a step
  that receives the table as it stands and hands back the table it leaves behind, next to
  its answer.
\<close>

datatype request = Convert string string string float64 | Categories | Units string

datatype response =
  Converted "error + float64" | CategoryList "string list" | UnitList "error + string list"

fun serve :: "table \<Rightarrow> request \<Rightarrow> response \<times> table" where
  "serve tbl (Convert category from_unit to_unit value) =
     (Converted (convert_on tbl category from_unit to_unit value), tbl)"
| "serve tbl Categories = (CategoryList (categories_on tbl), tbl)"
| "serve tbl (Units category) = (UnitList (units_on tbl category), tbl)"

fun run :: "table \<Rightarrow> request list \<Rightarrow> response list \<times> table" where
  "run tbl [] = ([], tbl)"
| "run tbl (r # rs) =
     (case serve tbl r of (a, tbl') \<Rightarrow>
        (case run tbl' rs of (as, tbl'') \<Rightarrow> (a # as, tbl'')))"

section \<open>Notions used in the statements\<close>

text \<open>Whether a unit is among the units listed for a category.\<close>

definition has_unit :: "string \<Rightarrow> string \<Rightarrow> bool" where
  "has_unit category unit = (case units category of Inr us \<Rightarrow> unit \<in> set us | Inl e \<Rightarrow> False)"

text \<open>The stored scale factor of a unit as an exact number.\<close>

definition exact_factor :: "string \<Rightarrow> string \<Rightarrow> error + rat" where
  "exact_factor category unit =
     bind (getitem CONVERSIONS category) (\<lambda>d. bind (getitem d unit) exact_of)"

text \<open>
  The invariant of the table: in every category other than Temperature each factor is a
  positive float, and exactly one unit has the factor 1.
\<close>

definition positive_factor :: "pyval \<Rightarrow> bool" where
  "positive_factor x = (case as_float x of Inr (Finite False m) \<Rightarrow> 0 < m | _ \<Rightarrow> False)"

definition base_units :: "pyval pydict \<Rightarrow> string list" where
  "base_units d = map fst (filter (\<lambda>(u, x). as_float x = Inr (Finite False 1)) d)"

definition table_invariant :: "table \<Rightarrow> bool" where
  "table_invariant tbl =
     (\<forall>(c, d) \<in> set tbl. c \<noteq> ''Temperature'' \<longrightarrow>
        (\<forall>(u, x) \<in> set d. positive_factor x) \<and> length (base_units d) = 1)"

text \<open>A stored factor read as a float and read as an exact number is one positive number.\<close>

definition plain_factor :: "pyval \<Rightarrow> bool" where
  "plain_factor x = (case as_float x of Inr (Finite False m) \<Rightarrow> exact_of x = Inr m \<and> 0 < m
                                        | _ \<Rightarrow> False)"

text \<open>
  Rounding to 53 bits changes a number in the normal range by at most the factor
  \<open>1 \<plusminus> 2\<^sup>-\<^sup>5\<^sup>3\<close>. \<open>near k x y\<close>: \<open>y\<close> is within \<open>k\<close> such roundings of \<open>x \<ge> 0\<close>.
\<close>

definition unit_roundoff :: rat where
  "unit_roundoff = 1 / 2 ^ 53"

definition near :: "nat \<Rightarrow> rat \<Rightarrow> rat \<Rightarrow> bool" where
  "near k x y \<longleftrightarrow> (1 - unit_roundoff) ^ k * x \<le> y \<and> y \<le> (1 + unit_roundoff) ^ k * x"

text \<open>Magnitudes between two powers of two.\<close>

definition in_range :: "int \<Rightarrow> int \<Rightarrow> rat \<Rightarrow> bool" where
  "in_range a b x \<longleftrightarrow> pow2 a \<le> x \<and> x \<le> pow2 b"

text \<open>The factors of the table lie between \<open>2\<^sup>-\<^sup>6\<^sup>4\<close> and \<open>2\<^sup>4\<^sup>1\<close>.\<close>

definition ranged_factor :: "pyval \<Rightarrow> bool" where
  "ranged_factor x = (case as_float x of Inr (Finite False m) \<Rightarrow> 1 / 2 ^ 64 \<le> m \<and> m \<le> 2 ^ 41
                                         | _ \<Rightarrow> False)"

text \<open>
  The two temperature steps computed exactly, on the numbers the source stores:
  \<open>celsius_zero\<close> is the float written \<^verbatim>\<open>273.15\<close>. As in the source, a unit that is neither
  Fahrenheit nor Kelvin is left alone.
\<close>

definition celsius_zero :: rat where
  "celsius_zero = 2402652809016115 / 8796093022208"

definition to_celsius_exact :: "string \<Rightarrow> rat \<Rightarrow> rat" where
  "to_celsius_exact from_unit x =
     (if from_unit = ''Fahrenheit'' then (x - 32) * 5 / 9
      else if from_unit = ''Kelvin'' then x - celsius_zero
      else x)"

definition from_celsius_exact :: "string \<Rightarrow> rat \<Rightarrow> rat" where
  "from_celsius_exact to_unit x =
     (if to_unit = ''Fahrenheit'' then x * 9 / 5 + 32
      else if to_unit = ''Kelvin'' then x + celsius_zero
      else x)"

text \<open>
  The float \<open>2\<^sup>1\<^sup>0\<^sup>2\<^sup>3\<close>, about \<^verbatim>\<open>8.99e307\<close>: finite, and large enough for a product with 5
  or with 1000 to overflow.
\<close>

definition huge :: float64 where
  "huge = Finite False (pow2 1023)"

section \<open>Powers of two and the binary exponent\<close>

lemma pow2_powi: "pow2 e = 2 powi e"
  by (simp add: pow2_def power_int_def inverse_eq_divide power_one_over)

lemma pow2_pos: "0 < pow2 e"
  by (simp add: pow2_powi)

lemma pow2_add: "pow2 (a + b) = pow2 a * pow2 b"
  by (simp add: pow2_powi power_int_add)

lemma pow2_mono: "a \<le> b \<Longrightarrow> pow2 a \<le> pow2 b"
  by (simp add: pow2_powi power_int_increasing)

lemma pow2_strict_mono: "a < b \<Longrightarrow> pow2 a < pow2 b"
  by (simp add: pow2_powi power_int_strict_increasing)

lemma pow2_nat: "pow2 (int n) = 2 ^ n"
  by (simp add: pow2_def)

lemma ilog2_bounds:
  assumes "0 < q"
  shows "pow2 (ilog2 q) \<le> q" and "q < pow2 (ilog2 q + 1)"
proof -
  obtain a b where ab: "quotient_of q = (a, b)" by (cases "quotient_of q")
  have b: "0 < b" using ab quotient_of_denom_pos by blast
  have q: "q = of_int a / of_int b" using ab quotient_of_div by blast
  have a: "0 < a" using assms b q by (simp add: zero_less_divide_iff)
  define d where "d = bitlen a - bitlen b"
  have la: "pow2 (bitlen a - 1) \<le> of_int a" "of_int a < pow2 (bitlen a)"
  proof -
    have "0 \<le> bitlen a - 1" using a bitlen_bounds [OF a] bitlen_nonneg [of a]
      by (metis bitlen_eq_zero_iff diff_ge_0_iff_ge int_one_le_iff_zero_less le_less not_less)
    then have e: "pow2 (bitlen a - 1) = 2 ^ nat (bitlen a - 1)" by (simp add: pow2_def)
    have "(2::int) ^ nat (bitlen a - 1) \<le> a" using bitlen_bounds [OF a] by simp
    then have "(of_int ((2::int) ^ nat (bitlen a - 1)) :: rat) \<le> of_int a" by (simp only: of_int_le_iff)
    then show "pow2 (bitlen a - 1) \<le> of_int a" by (simp add: e)
    have e2: "pow2 (bitlen a) = 2 ^ nat (bitlen a)" using bitlen_nonneg [of a] by (simp add: pow2_def)
    have "a < 2 ^ nat (bitlen a)" using bitlen_bounds [OF a] by simp
    then have "(of_int a :: rat) < of_int (2 ^ nat (bitlen a))" by (simp only: of_int_less_iff)
    then show "of_int a < pow2 (bitlen a)" by (simp add: e2)
  qed
  have lb: "pow2 (bitlen b - 1) \<le> of_int b" "of_int b < pow2 (bitlen b)"
  proof -
    have "0 \<le> bitlen b - 1" using b bitlen_bounds [OF b] bitlen_nonneg [of b]
      by (metis bitlen_eq_zero_iff diff_ge_0_iff_ge int_one_le_iff_zero_less le_less not_less)
    then have e: "pow2 (bitlen b - 1) = 2 ^ nat (bitlen b - 1)" by (simp add: pow2_def)
    have "(2::int) ^ nat (bitlen b - 1) \<le> b" using bitlen_bounds [OF b] by simp
    then have "(of_int ((2::int) ^ nat (bitlen b - 1)) :: rat) \<le> of_int b" by (simp only: of_int_le_iff)
    then show "pow2 (bitlen b - 1) \<le> of_int b" by (simp add: e)
    have e2: "pow2 (bitlen b) = 2 ^ nat (bitlen b)" using bitlen_nonneg [of b] by (simp add: pow2_def)
    have "b < 2 ^ nat (bitlen b)" using bitlen_bounds [OF b] by simp
    then have "(of_int b :: rat) < of_int (2 ^ nat (bitlen b))" by (simp only: of_int_less_iff)
    then show "of_int b < pow2 (bitlen b)" by (simp add: e2)
  qed
  have bpos: "(0::rat) < of_int b" using b by simp
  have lo: "pow2 (d - 1) < q"
  proof -
    have "pow2 (d - 1) * of_int b < pow2 (d - 1) * pow2 (bitlen b)"
      using lb(2) pow2_pos by (simp add: mult_strict_left_mono)
    also have "\<dots> = pow2 (bitlen a - 1)"
      by (simp add: d_def flip: pow2_add)
    also have "\<dots> \<le> of_int a" by (rule la(1))
    finally show ?thesis using bpos by (simp add: q pos_less_divide_eq)
  qed
  have hi: "q < pow2 (d + 1)"
  proof -
    have "of_int a < pow2 (bitlen a)" by (rule la(2))
    also have "\<dots> = pow2 (d + 1) * pow2 (bitlen b - 1)"
      by (simp add: d_def flip: pow2_add)
    also have "\<dots> \<le> pow2 (d + 1) * of_int b"
      using lb(1) pow2_pos [of "d + 1"] by (simp add: mult_left_mono)
    finally show ?thesis using bpos by (simp add: q pos_divide_less_eq)
  qed
  have il: "ilog2 q = (if pow2 d \<le> q then d else d - 1)"
    by (simp add: ilog2_def ab d_def Let_def)
  show "pow2 (ilog2 q) \<le> q" using lo by (simp add: il)
  show "q < pow2 (ilog2 q + 1)" using hi by (simp add: il)
qed

lemma ilog2_unique:
  assumes "pow2 e \<le> q" and "q < pow2 (e + 1)"
  shows "ilog2 q = e"
proof -
  have q: "0 < q" using assms(1) pow2_pos [of e] by simp
  note b = ilog2_bounds [OF q]
  show ?thesis
  proof (rule ccontr)
    assume ne: "ilog2 q \<noteq> e"
    show False
    proof (cases "ilog2 q < e")
      case True
      then have "pow2 (ilog2 q + 1) \<le> pow2 e" by (simp add: pow2_mono)
      with b(2) assms(1) show False by simp
    next
      case False
      with ne have "e + 1 \<le> ilog2 q" by simp
      then have "pow2 (e + 1) \<le> pow2 (ilog2 q)" by (rule pow2_mono)
      with b(1) assms(2) show False by simp
    qed
  qed
qed

section \<open>Rounding, characterised\<close>

lemma round_half_even_near:
  assumes "\<bar>x - of_int n\<bar> < 1 / 2"
  shows "round_half_even x = n"
proof -
  have lo: "of_int n - 1 / 2 < x" and hi: "x < of_int n + 1 / 2" using assms by linarith+
  show ?thesis
  proof (cases "of_int n \<le> x")
    case True
    then have f: "\<lfloor>x\<rfloor> = n" using hi by (simp add: floor_unique)
    show ?thesis using hi by (simp add: round_half_even_def f Let_def)
  next
    case False
    then have f: "\<lfloor>x\<rfloor> = n - 1" using lo by (simp add: floor_unique)
    show ?thesis using lo False by (simp add: round_half_even_def f Let_def)
  qed
qed

lemma round_half_even_tie:
  assumes "x = of_int n + 1 / 2"
  shows "round_half_even x = (if even n then n else n + 1)"
proof -
  have f: "\<lfloor>x\<rfloor> = n" using assms by (simp add: floor_unique)
  have r: "x - of_int n = 1 / 2" using assms by simp
  show ?thesis unfolding round_half_even_def Let_def f r by simp
qed

lemma round_float_normal:
  assumes "pow2 e \<le> q" and "q < pow2 (e + 1)" and "- 1022 \<le> e"
    and "\<bar>q / pow2 (e - 52) - of_int n\<bar> < 1 / 2"
    and "r = of_int n * pow2 (e - 52)"
  shows "round_float s q = (if pow2 1024 \<le> r then Infinity s else Finite s r)"
proof -
  have q: "q \<noteq> 0" using assms(1) pow2_pos [of e] by auto
  have i: "ilog2 q = e" using assms(1,2) by (rule ilog2_unique)
  have m: "max e (- 1022) = e" using assms(3) by simp
  have h: "round_half_even (q / pow2 (e - 52)) = n" using assms(4) by (rule round_half_even_near)
  show ?thesis by (simp add: round_float_def q i m h Let_def assms(5))
qed

lemma round_float_subnormal:
  assumes "0 < q" and "q < pow2 (- 1022)"
    and "\<bar>q / pow2 (- 1074) - of_int n\<bar> < 1 / 2"
    and "r = of_int n * pow2 (- 1074)"
  shows "round_float s q = (if pow2 1024 \<le> r then Infinity s else Finite s r)"
proof -
  have q: "q \<noteq> 0" using assms(1) by simp
  have "ilog2 q < - 1022"
  proof (rule ccontr)
    assume "\<not> ilog2 q < - 1022"
    then have "pow2 (- 1022) \<le> pow2 (ilog2 q)" by (simp add: pow2_mono)
    with ilog2_bounds(1) [OF assms(1)] assms(2) show False by simp
  qed
  then have m: "max (ilog2 q) (- 1022) = - 1022" by simp
  have h: "round_half_even (q / pow2 (- 1074)) = n" using assms(3) by (rule round_half_even_near)
  show ?thesis by (simp add: round_float_def q m h Let_def assms(4))
qed


lemma round_float_normalI:
  assumes "pow2 e \<le> q" and "q < pow2 (e + 1)" and "- 1022 \<le> e"
    and "\<bar>q / pow2 (e - 52) - of_int n\<bar> < 1 / 2"
    and "of_int n * pow2 (e - 52) = r" and "r < pow2 1024"
  shows "round_float s q = Finite s r"
  using round_float_normal [OF assms(1-4), of r s] assms(5,6) by simp

lemma round_float_overflowI:
  assumes "pow2 e \<le> q" and "q < pow2 (e + 1)" and "- 1022 \<le> e"
    and "\<bar>q / pow2 (e - 52) - of_int n\<bar> < 1 / 2"
    and "pow2 1024 \<le> of_int n * pow2 (e - 52)"
  shows "round_float s q = Infinity s"
  using round_float_normal [OF assms(1-4), of "of_int n * pow2 (e - 52)" s] assms(5) by simp

lemma round_float_subnormalI:
  assumes "0 < q" and "q < pow2 (- 1022)"
    and "\<bar>q / pow2 (- 1074) - of_int n\<bar> < 1 / 2"
    and "of_int n * pow2 (- 1074) = r" and "r < pow2 1024"
  shows "round_float s q = Finite s r"
  using round_float_subnormal [OF assms(1-3), of r s] assms(4,5) by simp

lemma round_float_tieI:
  assumes "pow2 e \<le> q" and "q < pow2 (e + 1)" and "- 1022 \<le> e"
    and "q / pow2 (e - 52) = of_int n + 1 / 2"
    and "of_int (if even n then n else n + 1) * pow2 (e - 52) = r" and "r < pow2 1024"
  shows "round_float s q = Finite s r"
proof -
  have q: "q \<noteq> 0" using assms(1) pow2_pos [of e] by auto
  have i: "ilog2 q = e" using assms(1,2) by (rule ilog2_unique)
  have m: "max e (- 1022) = e" using assms(3) by simp
  have h: "round_half_even (q / pow2 (e - 52)) = (if even n then n else n + 1)"
    using assms(4) by (rule round_half_even_tie)
  have "\<not> pow2 1024 \<le> r" using assms(6) by simp
  then show ?thesis
    unfolding round_float_def Let_def i m h assms(5) using q by simp
qed

lemma pow2_diff: "pow2 (a - b) = pow2 a / pow2 b"
  by (simp add: pow2_powi power_int_diff)

lemma pow2_0 [simp]: "pow2 0 = 1"
  by (simp add: pow2_def)

lemma pow2_less_cancel: "pow2 a < pow2 b \<Longrightarrow> a < b"
  using pow2_mono [of b a] by (cases "a < b") auto

lemma round_float_zero [simp]: "round_float s 0 = Finite s 0"
  by (simp add: round_float_def)

lemma round_float_exact:
  assumes n: "0 < n" "n < 2 ^ 53" and k: "- 1074 \<le> k"
    and top: "of_int n * pow2 k < pow2 1024"
  shows "round_float s (of_int n * pow2 k) = Finite s (of_int n * pow2 k)"
proof -
  let ?q = "of_int n * pow2 k :: rat"
  have q: "0 < ?q" using n(1) pow2_pos [of k] by simp
  define e where "e = ilog2 ?q"
  have lo: "pow2 e \<le> ?q" and hi: "?q < pow2 (e + 1)"
    using ilog2_bounds [OF q] by (simp_all add: e_def)
  have "(of_int n :: rat) < of_int (2 ^ 53)" using n(2) by (simp only: of_int_less_iff)
  then have "(of_int n :: rat) < pow2 53" by (simp add: pow2_def)
  then have "?q < pow2 53 * pow2 k" using pow2_pos [of k] by (simp add: mult_strict_right_mono)
  then have "pow2 e < pow2 (53 + k)" using lo by (simp add: pow2_add)
  then have ek: "e < 53 + k" by (rule pow2_less_cancel)
  show ?thesis
  proof (cases "- 1022 \<le> e")
    case True
    define j where "j = nat (k - e + 52)"
    have j: "int j = k - e + 52" using ek by (simp add: j_def)
    have nz: "pow2 (e - 52) \<noteq> 0" using pow2_pos [of "e - 52"] by simp
    have "pow2 (int j) * pow2 (e - 52) = pow2 k" using j by (simp flip: pow2_add)
    then have prod: "of_int (n * 2 ^ j) * pow2 (e - 52) = ?q"
      by (simp add: pow2_nat mult.assoc)
    have d: "?q / pow2 (e - 52) = of_int (n * 2 ^ j)"
      using nz by (simp only: flip: prod) simp
    show ?thesis
      by (rule round_float_normalI [where e = e and n = "n * 2 ^ j"])
         (use lo hi True d prod top in simp_all)
  next
    case False
    then have "e + 1 \<le> - 1022" by simp
    then have "pow2 (e + 1) \<le> pow2 (- 1022)" by (rule pow2_mono)
    with hi have small: "?q < pow2 (- 1022)" by simp
    define j where "j = nat (k + 1074)"
    have j: "int j = k + 1074" using k by (simp add: j_def)
    have nz: "pow2 (- 1074) \<noteq> 0" using pow2_pos [of "- 1074"] by simp
    have "pow2 (int j) * pow2 (- 1074) = pow2 k" using j by (simp flip: pow2_add)
    then have prod: "of_int (n * 2 ^ j) * pow2 (- 1074) = ?q"
      by (simp add: pow2_nat mult.assoc)
    have d: "?q / pow2 (- 1074) = of_int (n * 2 ^ j)"
      using nz by (simp only: flip: prod) simp
    show ?thesis
      by (rule round_float_subnormalI [where n = "n * 2 ^ j"])
         (use q small d prod top in simp_all)
  qed
qed

lemma round_float_of_int:
  assumes "0 \<le> i" and "i < 2 ^ 53"
  shows "round_float s (of_int i) = Finite s (of_int i)"
proof (cases "i = 0")
  case True
  then show ?thesis by simp
next
  case False
  have "(of_int i :: rat) < of_int (2 ^ 53)" using assms(2) by (simp only: of_int_less_iff)
  then have "(of_int i :: rat) * pow2 0 < pow2 1024" by (simp add: pow2_def)
  then show ?thesis using round_float_exact [of i 0 s] assms False by simp
qed

lemma round_float_numeral:
  "(numeral w :: int) < 2 ^ 53 \<Longrightarrow> round_float s (numeral w) = Finite s (numeral w)"
  using round_float_of_int [of "numeral w" s] by simp

lemma round_float_one [simp]: "round_float s 1 = Finite s 1"
  using round_float_of_int [of 1 s] by simp


section \<open>The error of one rounding, and of several\<close>

lemma round_half_even_error: "\<bar>of_int (round_half_even x) - x\<bar> \<le> 1 / 2"
proof -
  define n where "n = \<lfloor>x\<rfloor>"
  define r where "r = x - of_int n"
  have r: "0 \<le> r" "r < 1" unfolding r_def n_def by linarith+
  have x: "x = of_int n + r" by (simp add: r_def)
  have rhe: "round_half_even x =
      (if r < 1 / 2 then n else if 1 / 2 < r then n + 1 else if even n then n else n + 1)"
    by (simp add: round_half_even_def Let_def n_def r_def)
  consider "r < 1 / 2" | "1 / 2 < r" | "r = 1 / 2" by linarith
  then show ?thesis
  proof cases
    case 1
    then have "round_half_even x = n" by (simp add: rhe)
    then have "of_int (round_half_even x) - x = - r" by (simp add: r_def)
    then show ?thesis using r 1 by simp
  next
    case 2
    then have "round_half_even x = n + 1" by (simp add: rhe)
    then have "of_int (round_half_even x) - x = 1 - r" by (simp add: r_def)
    then show ?thesis using r 2 by simp
  next
    case 3
    then have "round_half_even x = n \<or> round_half_even x = n + 1" by (simp add: rhe)
    then have "of_int (round_half_even x) - x = - r \<or> of_int (round_half_even x) - x = 1 - r"
      by (auto simp: r_def)
    then show ?thesis using 3 by auto
  qed
qed

lemma ilog2_ge:
  assumes "pow2 a \<le> q"
  shows "a \<le> ilog2 q"
proof -
  have q: "0 < q" using assms pow2_pos [of a] by simp
  have "pow2 a < pow2 (ilog2 q + 1)" using assms ilog2_bounds(2) [OF q] by simp
  then have "a < ilog2 q + 1" by (rule pow2_less_cancel)
  then show ?thesis by simp
qed

lemma ilog2_less:
  assumes "0 < q" and "q < pow2 a"
  shows "ilog2 q < a"
proof -
  have "pow2 (ilog2 q) < pow2 a" using assms ilog2_bounds(1) [OF assms(1)] by simp
  then show ?thesis by (rule pow2_less_cancel)
qed

lemma round_float_relative:
  assumes lo: "pow2 (- 1022) \<le> q" and hi: "q < pow2 1023"
  shows "\<exists>r. round_float s q = Finite s r
             \<and> (1 - unit_roundoff) * q \<le> r \<and> r \<le> (1 + unit_roundoff) * q"
proof -
  have q: "0 < q" using lo pow2_pos [of "- 1022"] by simp
  define e where "e = ilog2 q"
  have e: "- 1022 \<le> e" "e < 1023"
    using ilog2_ge [OF lo] ilog2_less [OF q hi] by (simp_all add: e_def)
  have b: "pow2 e \<le> q" using ilog2_bounds(1) [OF q] by (simp add: e_def)
  define ulp where "ulp = pow2 (e - 52)"
  have ulp: "0 < ulp" by (simp add: ulp_def pow2_pos)
  define n where "n = round_half_even (q / ulp)"
  define r where "r = of_int n * ulp"
  have "\<bar>of_int n - q / ulp\<bar> \<le> 1 / 2" unfolding n_def by (rule round_half_even_error)
  then have "\<bar>of_int n - q / ulp\<bar> * ulp \<le> 1 / 2 * ulp"
    using ulp by (simp add: mult_right_mono)
  moreover have "\<bar>of_int n - q / ulp\<bar> * ulp = \<bar>r - q\<bar>"
  proof -
    have "\<bar>of_int n - q / ulp\<bar> * ulp = \<bar>(of_int n - q / ulp) * ulp\<bar>"
      using ulp by (simp add: abs_mult)
    also have "(of_int n - q / ulp) * ulp = r - q"
      using ulp by (simp add: r_def left_diff_distrib)
    finally show ?thesis .
  qed
  ultimately have d: "\<bar>r - q\<bar> \<le> ulp / 2" by simp
  have "ulp / 2 = pow2 e * unit_roundoff"
  proof -
    have "pow2 (e - 52) = pow2 e / pow2 52" by (rule pow2_diff)
    then show ?thesis by (simp add: ulp_def unit_roundoff_def pow2_def)
  qed
  also have "\<dots> \<le> q * unit_roundoff"
    using b by (simp add: unit_roundoff_def)
  finally have u: "ulp / 2 \<le> q * unit_roundoff" .
  have "\<bar>r - q\<bar> \<le> q * unit_roundoff" using d u by linarith
  then have "r - q \<le> q * unit_roundoff" "q - r \<le> q * unit_roundoff" by linarith+
  then have bounds: "(1 - unit_roundoff) * q \<le> r" "r \<le> (1 + unit_roundoff) * q"
    by (simp_all add: algebra_simps)
  have "r \<le> (1 + unit_roundoff) * q" by (rule bounds(2))
  also have "\<dots> < 2 * pow2 1023"
  proof -
    have "(1 + unit_roundoff) * q \<le> 2 * q" using q by (simp add: unit_roundoff_def algebra_simps)
    also have "\<dots> < 2 * pow2 1023" using hi by simp
    finally show ?thesis .
  qed
  also have "2 * pow2 1023 = pow2 1024" by (simp add: pow2_def)
  finally have fin: "\<not> pow2 1024 \<le> r" by simp
  have m: "max (ilog2 q) (- 1022) = e" using e(1) by (simp add: e_def)
  have "round_float s q = Finite s r"
    using q fin by (simp add: round_float_def m Let_def r_def n_def ulp_def)
  with bounds show ?thesis by blast
qed

lemma roundoff_bounds: "0 < unit_roundoff" "unit_roundoff < 1" "0 \<le> 1 - unit_roundoff"
  "1 - unit_roundoff \<le> 1" "1 \<le> 1 + unit_roundoff" "0 \<le> 1 + unit_roundoff"
  by (simp_all add: unit_roundoff_def)

lemma near_trans:
  assumes "0 \<le> x" and "near j x y" and "near k y z"
  shows "near (j + k) x z"
proof -
  have "(1 - unit_roundoff) ^ (j + k) * x = (1 - unit_roundoff) ^ k * ((1 - unit_roundoff) ^ j * x)"
    by (simp add: power_add mult.assoc mult.commute)
  also have "\<dots> \<le> (1 - unit_roundoff) ^ k * y"
    using assms(2) roundoff_bounds(3) by (simp add: near_def mult_left_mono)
  also have "\<dots> \<le> z" using assms(3) by (simp add: near_def)
  finally have lo: "(1 - unit_roundoff) ^ (j + k) * x \<le> z" .
  have "z \<le> (1 + unit_roundoff) ^ k * y" using assms(3) by (simp add: near_def)
  also have "\<dots> \<le> (1 + unit_roundoff) ^ k * ((1 + unit_roundoff) ^ j * x)"
    using assms(2) roundoff_bounds(6) by (simp add: near_def mult_left_mono)
  also have "\<dots> = (1 + unit_roundoff) ^ (j + k) * x"
    by (simp add: power_add mult.assoc mult.commute)
  finally have hi: "z \<le> (1 + unit_roundoff) ^ (j + k) * x" .
  from lo hi show ?thesis by (simp add: near_def)
qed

lemma near_mult:
  assumes "0 \<le> c" and "near k x y"
  shows "near k (x * c) (y * c)"
proof -
  have "(1 - unit_roundoff) ^ k * x * c \<le> y * c"
    using assms by (simp add: near_def mult_right_mono)
  moreover have "y * c \<le> (1 + unit_roundoff) ^ k * x * c"
    using assms by (simp add: near_def mult_right_mono)
  ultimately show ?thesis by (simp add: near_def mult.assoc)
qed

lemma near_div:
  assumes "0 < c" and "near k x y"
  shows "near k (x / c) (y / c)"
  using near_mult [of "1 / c" k x y] assms by simp

lemma near_round:
  assumes "pow2 (- 1022) \<le> q" and "q < pow2 1023"
  shows "\<exists>r. round_float s q = Finite s r \<and> near 1 q r"
  using round_float_relative [OF assms, of s] by (simp add: near_def)

lemma four_roundings:
  "1 / 2 \<le> (1 - unit_roundoff) ^ 4" "(1 + unit_roundoff) ^ 4 \<le> 2"
  "1 - 1 / 2 ^ 50 \<le> (1 - unit_roundoff) ^ 4" "(1 + unit_roundoff) ^ 4 \<le> 1 + 1 / 2 ^ 50"
  "1 - 1 / 2 ^ 51 \<le> (1 - unit_roundoff) ^ 2" "(1 + unit_roundoff) ^ 2 \<le> 1 + 1 / 2 ^ 51"
  by (simp_all add: unit_roundoff_def power4_eq_xxxx power2_eq_square)

lemma near_weaken:
  assumes "0 \<le> x" and "near k x y" and "k \<le> 4"
  shows "near 4 x y"
proof -
  have "(1 - unit_roundoff) ^ 4 \<le> (1 - unit_roundoff) ^ k"
    using assms(3) roundoff_bounds by (intro power_decreasing) simp_all
  then have "(1 - unit_roundoff) ^ 4 * x \<le> (1 - unit_roundoff) ^ k * x"
    using assms(1) by (rule mult_right_mono)
  moreover have "(1 + unit_roundoff) ^ k \<le> (1 + unit_roundoff) ^ 4"
    using assms(3) roundoff_bounds by (intro power_increasing) simp_all
  then have "(1 + unit_roundoff) ^ k * x \<le> (1 + unit_roundoff) ^ 4 * x"
    using assms(1) by (rule mult_right_mono)
  ultimately show ?thesis using assms(2) by (simp add: near_def)
qed

lemma near_factor_two:
  assumes "0 \<le> x" and "near k x y" and "k \<le> 4"
  shows "x / 2 \<le> y" and "y \<le> 2 * x"
proof -
  have n: "near 4 x y" using assms by (rule near_weaken)
  have "1 / 2 * x \<le> (1 - unit_roundoff) ^ 4 * x"
    using four_roundings(1) assms(1) by (rule mult_right_mono)
  then show "x / 2 \<le> y" using n by (simp add: near_def)
  have "(1 + unit_roundoff) ^ 4 * x \<le> 2 * x"
    using four_roundings(2) assms(1) by (rule mult_right_mono)
  then show "y \<le> 2 * x" using n by (simp add: near_def)
qed

lemma near_four_error:
  assumes "0 \<le> x" and "near k x y" and "k \<le> 4"
  shows "\<bar>y - x\<bar> \<le> x / 2 ^ 50"
proof -
  have n: "near 4 x y" using assms by (rule near_weaken)
  have "(1 - 1 / 2 ^ 50) * x \<le> (1 - unit_roundoff) ^ 4 * x"
    using four_roundings(3) assms(1) by (rule mult_right_mono)
  then have lo: "(1 - 1 / 2 ^ 50) * x \<le> y" using n by (simp add: near_def)
  have "(1 + unit_roundoff) ^ 4 * x \<le> (1 + 1 / 2 ^ 50) * x"
    using four_roundings(4) assms(1) by (rule mult_right_mono)
  then have hi: "y \<le> (1 + 1 / 2 ^ 50) * x" using n by (simp add: near_def)
  from lo hi show ?thesis unfolding abs_le_iff by (simp add: field_simps)
qed

lemma near_two_error:
  assumes "0 \<le> x" and "near 2 x y"
  shows "\<bar>y - x\<bar> \<le> x / 2 ^ 51"
proof -
  have "(1 - 1 / 2 ^ 51) * x \<le> (1 - unit_roundoff) ^ 2 * x"
    using four_roundings(5) assms(1) by (rule mult_right_mono)
  then have lo: "(1 - 1 / 2 ^ 51) * x \<le> y" using assms(2) by (simp add: near_def)
  have "(1 + unit_roundoff) ^ 2 * x \<le> (1 + 1 / 2 ^ 51) * x"
    using four_roundings(6) assms(1) by (rule mult_right_mono)
  then have hi: "y \<le> (1 + 1 / 2 ^ 51) * x" using assms(2) by (simp add: near_def)
  from lo hi show ?thesis unfolding abs_le_iff by (simp add: field_simps)
qed

lemma in_range_pos: "in_range a b x \<Longrightarrow> 0 < x"
  using pow2_pos [of a] by (simp add: in_range_def)

lemma in_range_mult:
  assumes "in_range a b x" and "in_range c d y"
  shows "in_range (a + c) (b + d) (x * y)"
proof -
  have x: "0 < x" and y: "0 < y" using assms in_range_pos by blast+
  have "pow2 a * pow2 c \<le> x * y"
    using assms pow2_pos [of a] pow2_pos [of c] by (intro mult_mono) (simp_all add: in_range_def)
  moreover have "x * y \<le> pow2 b * pow2 d"
    using assms x y pow2_pos [of b] by (intro mult_mono) (simp_all add: in_range_def)
  ultimately show ?thesis by (simp add: in_range_def pow2_add)
qed

lemma in_range_div:
  assumes "in_range a b x" and "in_range c d y"
  shows "in_range (a - d) (b - c) (x / y)"
proof -
  have x: "0 < x" and y: "0 < y" using assms in_range_pos by blast+
  have "pow2 a / pow2 d \<le> x / y"
    using assms y pow2_pos [of a] by (intro frac_le) (simp_all add: in_range_def)
  moreover have "x / y \<le> pow2 b / pow2 c"
    using assms x pow2_pos [of c] by (intro frac_le) (simp_all add: in_range_def)
  ultimately show ?thesis by (simp add: in_range_def pow2_diff)
qed

lemma in_range_near:
  assumes "in_range a b x" and "near k x y" and "k \<le> 4"
  shows "in_range (a - 1) (b + 1) y"
proof -
  have x: "0 \<le> x" using in_range_pos [OF assms(1)] by simp
  note f = near_factor_two [OF x assms(2,3)]
  have one: "pow2 1 = 2" by (simp add: pow2_def)
  have "pow2 (a - 1) = pow2 a / 2" using pow2_diff [of a 1] by (simp add: one)
  also have "\<dots> \<le> x / 2" using assms(1) by (simp add: in_range_def)
  finally have lo: "pow2 (a - 1) \<le> y" using f(1) by simp
  have "y \<le> 2 * x" by (rule f(2))
  also have "\<dots> \<le> 2 * pow2 b" using assms(1) by (simp add: in_range_def)
  also have "\<dots> = pow2 (b + 1)" using pow2_add [of b 1] by (simp add: one)
  finally show ?thesis using lo by (simp add: in_range_def)
qed

lemma in_range_widen:
  assumes "in_range a b x" and "a' \<le> a" and "b \<le> b'"
  shows "in_range a' b' x"
  using assms pow2_mono [of a' a] pow2_mono [of b b'] by (simp add: in_range_def)

lemma round_in_range:
  assumes "in_range a b q" and "- 1022 \<le> a" and "b < 1023"
  shows "\<exists>r. round_float s q = Finite s r \<and> near 1 q r"
proof -
  have "pow2 (- 1022) \<le> q" using assms(1,2) pow2_mono [of "- 1022" a] by (simp add: in_range_def)
  moreover have "q < pow2 1023"
    using assms(1,3) pow2_strict_mono [of b 1023] by (simp add: in_range_def)
  ultimately show ?thesis by (rule near_round)
qed

section \<open>Absolute error: sums, differences, products and quotients\<close>

lemma round_half_even_nonneg:
  assumes "0 \<le> x"
  shows "0 \<le> round_half_even x"
proof -
  have "0 \<le> \<lfloor>x\<rfloor>" using assms by simp
  then show ?thesis by (simp add: round_half_even_def Let_def)
qed

lemma abs_signed: "0 \<le> m \<Longrightarrow> \<bar>signed s m\<bar> = m"
  by (simp add: signed_def)

lemma round_float_absolute:
  assumes "0 \<le> q" and "q < pow2 1023"
  shows "\<exists>r. round_float s q = Finite s r \<and> 0 \<le> r \<and> \<bar>r - q\<bar> \<le> (q + 1) * unit_roundoff"
proof (cases "q = 0")
  case True
  then show ?thesis by (simp add: unit_roundoff_def)
next
  case False
  then have q: "0 < q" using assms(1) by simp
  show ?thesis
  proof (cases "pow2 (- 1022) \<le> q")
    case True
    obtain r where r: "round_float s q = Finite s r"
        "(1 - unit_roundoff) * q \<le> r" "r \<le> (1 + unit_roundoff) * q"
      using round_float_relative [OF True assms(2), of s] by blast
    have "0 \<le> (1 - unit_roundoff) * q" using q roundoff_bounds(3) by simp
    then have "0 \<le> r" using r(2) by simp
    moreover have "\<bar>r - q\<bar> \<le> (q + 1) * unit_roundoff"
      using r(2,3) roundoff_bounds(1) by (simp add: algebra_simps abs_le_iff)
    ultimately show ?thesis using r(1) by blast
  next
    case False
    then have small: "q < pow2 (- 1022)" by simp
    have "ilog2 q < - 1022" using q small by (rule ilog2_less)
    then have m: "max (ilog2 q) (- 1022) = - 1022" by simp
    define ulp where "ulp = pow2 (- 1074)"
    have ulp: "0 < ulp" by (simp add: ulp_def pow2_pos)
    define n where "n = round_half_even (q / ulp)"
    define r where "r = of_int n * ulp"
    have n0: "0 \<le> n" unfolding n_def using q ulp by (intro round_half_even_nonneg) simp
    have r0: "0 \<le> r" using n0 ulp by (simp add: r_def)
    have "\<bar>of_int n - q / ulp\<bar> \<le> 1 / 2" unfolding n_def by (rule round_half_even_error)
    then have "\<bar>of_int n - q / ulp\<bar> * ulp \<le> 1 / 2 * ulp"
      using ulp by (simp add: mult_right_mono)
    moreover have "\<bar>of_int n - q / ulp\<bar> * ulp = \<bar>r - q\<bar>"
    proof -
      have "\<bar>of_int n - q / ulp\<bar> * ulp = \<bar>(of_int n - q / ulp) * ulp\<bar>"
        using ulp by (simp add: abs_mult)
      also have "(of_int n - q / ulp) * ulp = r - q"
        using ulp by (simp add: r_def left_diff_distrib)
      finally show ?thesis .
    qed
    ultimately have d: "\<bar>r - q\<bar> \<le> ulp / 2" by simp
    have tiny: "ulp / 2 \<le> unit_roundoff" "ulp / 2 \<le> 1"
      by (simp_all add: ulp_def pow2_def unit_roundoff_def)
    have "unit_roundoff \<le> (q + 1) * unit_roundoff"
      using q roundoff_bounds(1) by (simp add: algebra_simps)
    then have e: "\<bar>r - q\<bar> \<le> (q + 1) * unit_roundoff" using d tiny(1) by linarith
    have "r \<le> q + 1" using d tiny(2) by linarith
    also have "\<dots> < pow2 (- 1022) + 1" using small by simp
    also have "\<dots> \<le> pow2 1024" by (simp add: pow2_def)
    finally have fin: "\<not> pow2 1024 \<le> r" by simp
    have "round_float s q = Finite s r"
      using q fin by (simp add: round_float_def m Let_def r_def n_def ulp_def)
    with r0 e show ?thesis by blast
  qed
qed

lemma signed_not: "signed (\<not> s) m = - signed s m"
  by (simp add: signed_def)

lemma signed_abs: "x \<noteq> 0 \<Longrightarrow> signed (x < 0) \<bar>x\<bar> = x"
  by (simp add: signed_def)

lemma float_add_absolute:
  assumes "\<bar>signed s m + signed t n\<bar> < pow2 1023"
  shows "\<exists>s' r. float_add (Finite s m) (Finite t n) = Finite s' r \<and> 0 \<le> r
           \<and> \<bar>signed s' r - (signed s m + signed t n)\<bar>
               \<le> (\<bar>signed s m + signed t n\<bar> + 1) * unit_roundoff"
proof -
  define x where "x = signed s m + signed t n"
  show ?thesis
  proof (cases "x = 0")
    case True
    have "float_add (Finite s m) (Finite t n) = Finite (s \<and> t) 0"
      using True by (simp add: x_def Let_def)
    moreover have "\<bar>signed (s \<and> t) 0 - x\<bar> \<le> (\<bar>x\<bar> + 1) * unit_roundoff"
      using True by (simp add: signed_def unit_roundoff_def)
    ultimately show ?thesis unfolding x_def by blast
  next
    case False
    have "0 \<le> \<bar>x\<bar>" by simp
    moreover have "\<bar>x\<bar> < pow2 1023" using assms by (simp add: x_def)
    ultimately obtain r where r: "round_float (x < 0) \<bar>x\<bar> = Finite (x < 0) r" "0 \<le> r"
        "\<bar>r - \<bar>x\<bar>\<bar> \<le> (\<bar>x\<bar> + 1) * unit_roundoff"
      using round_float_absolute [of "\<bar>x\<bar>" "x < 0"] by blast
    have "float_add (Finite s m) (Finite t n) = Finite (x < 0) r"
      using False r(1) by (simp add: x_def Let_def)
    moreover have "\<bar>signed (x < 0) r - x\<bar> = \<bar>r - \<bar>x\<bar>\<bar>"
      by (simp add: signed_def abs_if)
    ultimately show ?thesis using r(2,3) unfolding x_def by (metis)
  qed
qed

lemma float_sub_absolute:
  assumes "\<bar>signed s m - signed t n\<bar> < pow2 1023"
  shows "\<exists>s' r. float_sub (Finite s m) (Finite t n) = Finite s' r \<and> 0 \<le> r
           \<and> \<bar>signed s' r - (signed s m - signed t n)\<bar>
               \<le> (\<bar>signed s m - signed t n\<bar> + 1) * unit_roundoff"
  using float_add_absolute [of s m "\<not> t" n] assms by (simp add: float_sub_def signed_not)

lemma float_mul_absolute:
  assumes "0 \<le> m" and "0 \<le> n" and "m * n < pow2 1023"
  shows "\<exists>r. float_mul (Finite s m) (Finite False n) = Finite s r \<and> 0 \<le> r
           \<and> \<bar>signed s r - signed s m * n\<bar> \<le> (m * n + 1) * unit_roundoff"
proof -
  have "0 \<le> m * n" using assms(1,2) by simp
  then obtain r where r: "round_float s (m * n) = Finite s r" "0 \<le> r"
      "\<bar>r - m * n\<bar> \<le> (m * n + 1) * unit_roundoff"
    using round_float_absolute [of "m * n" s] assms(3) by blast
  have "\<bar>signed s r - signed s m * n\<bar> = \<bar>r - m * n\<bar>"
    by (simp add: signed_def abs_minus_commute)
  with r show ?thesis by simp
qed

lemma float_div_absolute:
  assumes "0 \<le> m" and "0 < n" and "m / n < pow2 1023"
  shows "\<exists>r. float_div (Finite s m) (Finite False n) = Finite s r \<and> 0 \<le> r
           \<and> \<bar>signed s r - signed s m / n\<bar> \<le> (m / n + 1) * unit_roundoff"
proof -
  have "0 \<le> m / n" using assms(1,2) by simp
  then obtain r where r: "round_float s (m / n) = Finite s r" "0 \<le> r"
      "\<bar>r - m / n\<bar> \<le> (m / n + 1) * unit_roundoff"
    using round_float_absolute [of "m / n" s] assms(3) by blast
  have "\<bar>signed s r - signed s m / n\<bar> = \<bar>r - m / n\<bar>"
    by (simp add: signed_def abs_minus_commute)
  with r show ?thesis by simp
qed

lemma step_mul:
  assumes m: "0 \<le> m" and x: "\<bar>signed s m - X\<bar> \<le> E" and c: "0 < c"
    and B: "\<bar>X\<bar> + E \<le> B" and rng: "B * c < pow2 1023"
  shows "\<exists>r. float_mul (Finite s m) (Finite False c) = Finite s r \<and> 0 \<le> r
           \<and> \<bar>signed s r - X * c\<bar> \<le> E * c + (B * c + 1) * unit_roundoff"
proof -
  have "\<bar>signed s m\<bar> \<le> B" using x B by linarith
  then have mB: "m \<le> B" using m by (simp add: abs_signed)
  then have mc: "m * c \<le> B * c" using c by (simp add: mult_right_mono)
  then have "m * c < pow2 1023" using rng by linarith
  then obtain r where r: "float_mul (Finite s m) (Finite False c) = Finite s r" "0 \<le> r"
      "\<bar>signed s r - signed s m * c\<bar> \<le> (m * c + 1) * unit_roundoff"
    using float_mul_absolute [of m c s] m c by auto
  have "(m * c + 1) * unit_roundoff \<le> (B * c + 1) * unit_roundoff"
    using mc roundoff_bounds(1) by (simp add: mult_right_mono)
  then have 1: "\<bar>signed s r - signed s m * c\<bar> \<le> (B * c + 1) * unit_roundoff"
    using r(3) by linarith
  have "\<bar>signed s m * c - X * c\<bar> = \<bar>signed s m - X\<bar> * c"
    using c by (simp add: abs_mult flip: left_diff_distrib)
  also have "\<dots> \<le> E * c" using x c by (simp add: mult_right_mono)
  finally have 2: "\<bar>signed s m * c - X * c\<bar> \<le> E * c" .
  have "\<bar>signed s r - X * c\<bar> \<le> E * c + (B * c + 1) * unit_roundoff" using 1 2 by linarith
  with r(1,2) show ?thesis by blast
qed

lemma step_div:
  assumes m: "0 \<le> m" and x: "\<bar>signed s m - X\<bar> \<le> E" and c: "0 < c"
    and B: "\<bar>X\<bar> + E \<le> B" and rng: "B / c < pow2 1023"
  shows "\<exists>r. float_div (Finite s m) (Finite False c) = Finite s r \<and> 0 \<le> r
           \<and> \<bar>signed s r - X / c\<bar> \<le> E / c + (B / c + 1) * unit_roundoff"
proof -
  have "\<bar>signed s m\<bar> \<le> B" using x B by linarith
  then have mB: "m \<le> B" using m by (simp add: abs_signed)
  then have mc: "m / c \<le> B / c" using c by (simp add: divide_right_mono)
  then have "m / c < pow2 1023" using rng by linarith
  then obtain r where r: "float_div (Finite s m) (Finite False c) = Finite s r" "0 \<le> r"
      "\<bar>signed s r - signed s m / c\<bar> \<le> (m / c + 1) * unit_roundoff"
    using float_div_absolute [of m c s] m c by auto
  have "(m / c + 1) * unit_roundoff \<le> (B / c + 1) * unit_roundoff"
    using mc roundoff_bounds(1) by (simp add: mult_right_mono)
  then have 1: "\<bar>signed s r - signed s m / c\<bar> \<le> (B / c + 1) * unit_roundoff"
    using r(3) by linarith
  have "\<bar>signed s m / c - X / c\<bar> = \<bar>signed s m - X\<bar> / c"
    using c by (simp add: abs_divide flip: diff_divide_distrib)
  also have "\<dots> \<le> E / c" using x c by (simp add: divide_right_mono)
  finally have 2: "\<bar>signed s m / c - X / c\<bar> \<le> E / c" .
  have "\<bar>signed s r - X / c\<bar> \<le> E / c + (B / c + 1) * unit_roundoff" using 1 2 by linarith
  with r(1,2) show ?thesis by blast
qed

lemma step_add:
  assumes x: "\<bar>signed s m - X\<bar> \<le> E" and B: "\<bar>X\<bar> + E \<le> B" and rng: "B + n < pow2 1023"
    and n: "0 \<le> n"
  shows "\<exists>s' r. float_add (Finite s m) (Finite False n) = Finite s' r \<and> 0 \<le> r
           \<and> \<bar>signed s' r - (X + n)\<bar> \<le> E + (B + n + 1) * unit_roundoff"
proof -
  have sn: "signed False n = n" by (simp add: signed_def)
  have b: "\<bar>signed s m + n\<bar> \<le> B + n" using x B n by linarith
  then have "\<bar>signed s m + signed False n\<bar> < pow2 1023" using rng by (simp add: sn)
  then obtain s' r where r: "float_add (Finite s m) (Finite False n) = Finite s' r" "0 \<le> r"
      "\<bar>signed s' r - (signed s m + n)\<bar> \<le> (\<bar>signed s m + n\<bar> + 1) * unit_roundoff"
    using float_add_absolute [of s m False n] by (auto simp: sn)
  have "(\<bar>signed s m + n\<bar> + 1) * unit_roundoff \<le> (B + n + 1) * unit_roundoff"
    using b roundoff_bounds(1) by (simp add: mult_right_mono)
  then have "\<bar>signed s' r - (X + n)\<bar> \<le> E + (B + n + 1) * unit_roundoff"
    using r(3) x by linarith
  with r(1,2) show ?thesis by blast
qed

lemma step_sub:
  assumes x: "\<bar>signed s m - X\<bar> \<le> E" and B: "\<bar>X\<bar> + E \<le> B" and rng: "B + n < pow2 1023"
    and n: "0 \<le> n"
  shows "\<exists>s' r. float_sub (Finite s m) (Finite False n) = Finite s' r \<and> 0 \<le> r
           \<and> \<bar>signed s' r - (X - n)\<bar> \<le> E + (B + n + 1) * unit_roundoff"
proof -
  have sn: "signed True n = - n" by (simp add: signed_def)
  have b: "\<bar>signed s m - n\<bar> \<le> B + n" using x B n by linarith
  then have "\<bar>signed s m + signed True n\<bar> < pow2 1023" using rng by (simp add: sn)
  then obtain s' r where r: "float_add (Finite s m) (Finite True n) = Finite s' r" "0 \<le> r"
      "\<bar>signed s' r - (signed s m - n)\<bar> \<le> (\<bar>signed s m - n\<bar> + 1) * unit_roundoff"
    using float_add_absolute [of s m True n] by (auto simp: sn)
  have "(\<bar>signed s m - n\<bar> + 1) * unit_roundoff \<le> (B + n + 1) * unit_roundoff"
    using b roundoff_bounds(1) by (simp add: mult_right_mono)
  then have "\<bar>signed s' r - (X - n)\<bar> \<le> E + (B + n + 1) * unit_roundoff"
    using r(3) x by linarith
  with r(1,2) show ?thesis by (simp add: float_sub_def)
qed

section \<open>The floats that the literals of the table denote\<close>

lemma round_0_01: "round_float s (1 / 100) = Finite s (5764607523034235 / 576460752303423488)"
  by (rule round_float_normalI [where e = "- 7" and n = 5764607523034235]) (simp_all add: pow2_def)

lemma round_0_001: "round_float s (1 / 1000) = Finite s (1152921504606847 / 1152921504606846976)"
  by (rule round_float_normalI [where e = "- 10" and n = 4611686018427388]) (simp_all add: pow2_def)

lemma round_1609_34: "round_float s (80467 / 50) = Finite s (7077952172180111 / 4398046511104)"
  by (rule round_float_normalI [where e = "10" and n = 7077952172180111]) (simp_all add: pow2_def)

lemma round_0_9144: "round_float s (1143 / 1250) = Finite s (8236182998535163 / 9007199254740992)"
  by (rule round_float_normalI [where e = "- 1" and n = 8236182998535163]) (simp_all add: pow2_def)

lemma round_0_3048: "round_float s (381 / 1250) = Finite s (5490788665690109 / 18014398509481984)"
  by (rule round_float_normalI [where e = "- 2" and n = 5490788665690109]) (simp_all add: pow2_def)

lemma round_0_0254: "round_float s (127 / 5000) = Finite s (3660525777126739 / 144115188075855872)"
  by (rule round_float_normalI [where e = "- 6" and n = 7321051554253478]) (simp_all add: pow2_def)

lemma round_0_000001: "round_float s (1 / 1000000) = Finite s (4722366482869645 / 4722366482869645213696)"
  by (rule round_float_normalI [where e = "- 20" and n = 4722366482869645]) (simp_all add: pow2_def)

lemma round_0_453592: "round_float s (56699 / 125000) = Finite s (1021398381089119 / 2251799813685248)"
  by (rule round_float_normalI [where e = "- 2" and n = 8171187048712952]) (simp_all add: pow2_def)

lemma round_0_0283495: "round_float s (56699 / 2000000) = Finite s (1021398381089119 / 36028797018963968)"
  by (rule round_float_normalI [where e = "- 6" and n = 8171187048712952]) (simp_all add: pow2_def)

lemma round_6_35029: "round_float s (635029 / 100000) = Finite s (7149790919423647 / 1125899906842624)"
  by (rule round_float_normalI [where e = "2" and n = 7149790919423647]) (simp_all add: pow2_def)

lemma round_2589988_11: "round_float s (258998811 / 100) = Finite s (5561957114739425 / 2147483648)"
  by (rule round_float_normalI [where e = "21" and n = 5561957114739425]) (simp_all add: pow2_def)

lemma round_0_836127: "round_float s (836127 / 1000000) = Finite s (7531162491268821 / 9007199254740992)"
  by (rule round_float_normalI [where e = "- 1" and n = 7531162491268821]) (simp_all add: pow2_def)

lemma round_0_092903: "round_float s (92903 / 1000000) = Finite s (6694366658905619 / 72057594037927936)"
  by (rule round_float_normalI [where e = "- 4" and n = 6694366658905619]) (simp_all add: pow2_def)

lemma round_4046_86: "round_float s (202343 / 50) = Finite s (8899139251963167 / 2199023255552)"
  by (rule round_float_normalI [where e = "11" and n = 8899139251963167]) (simp_all add: pow2_def)

lemma round_0_0283168: "round_float s (8849 / 312500) = Finite s (8161761915412791 / 288230376151711744)"
  by (rule round_float_normalI [where e = "- 6" and n = 8161761915412791]) (simp_all add: pow2_def)

lemma round_0_0000163871: "round_float s (163871 / 10000000000) = Finite s (4836618236964573 / 295147905179352825856)"
  by (rule round_float_normalI [where e = "- 16" and n = 4836618236964573]) (simp_all add: pow2_def)

lemma round_0_00378541: "round_float s (378541 / 100000000) = Finite s (8728561185507609 / 2305843009213693952)"
  by (rule round_float_normalI [where e = "- 9" and n = 8728561185507609]) (simp_all add: pow2_def)

lemma round_0_000946353: "round_float s (946353 / 1000000000) = Finite s (2182141449298407 / 2305843009213693952)"
  by (rule round_float_normalI [where e = "- 11" and n = 8728565797193628]) (simp_all add: pow2_def)

lemma round_0_000473176: "round_float s (59147 / 125000000) = Finite s (8728556573821591 / 18446744073709551616)"
  by (rule round_float_normalI [where e = "- 12" and n = 8728556573821591]) (simp_all add: pow2_def)

lemma round_0_0000295735: "round_float s (59147 / 2000000000) = Finite s (8728556573821591 / 295147905179352825856)"
  by (rule round_float_normalI [where e = "- 16" and n = 8728556573821591]) (simp_all add: pow2_def)

lemma round_0_277778: "round_float s (138889 / 500000) = Finite s (5004003589166887 / 18014398509481984)"
  by (rule round_float_normalI [where e = "- 2" and n = 5004003589166887]) (simp_all add: pow2_def)

lemma round_0_44704: "round_float s (1397 / 3125) = Finite s (4026578354839413 / 9007199254740992)"
  by (rule round_float_normalI [where e = "- 2" and n = 8053156709678826]) (simp_all add: pow2_def)

lemma round_0_514444: "round_float s (128611 / 250000) = Finite s (4633699613405975 / 9007199254740992)"
  by (rule round_float_normalI [where e = "- 1" and n = 4633699613405975]) (simp_all add: pow2_def)

lemma round_4_184: "round_float s (523 / 125) = Finite s (4710765210229539 / 1125899906842624)"
  by (rule round_float_normalI [where e = "2" and n = 4710765210229539]) (simp_all add: pow2_def)

lemma round_1_602177em19: "round_float s (1602177 / 10000000000000000000000000) = Finite s (1663795720783351 / 10384593717069655257060992658440192)"
  by (rule round_float_normalI [where e = "- 63" and n = 6655182883133404]) (simp_all add: pow2_def)

lemma round_6894_76: "round_float s (172369 / 25) = Finite s (3790434395362427 / 549755813888)"
  by (rule round_float_normalI [where e = "12" and n = 7580868790724854]) (simp_all add: pow2_def)

lemma round_133_322: "round_float s (66661 / 500) = Finite s (1172712713906815 / 8796093022208)"
  by (rule round_float_normalI [where e = "7" and n = 4690850855627260]) (simp_all add: pow2_def)

lemma round_273_15: "round_float s (5463 / 20) = Finite s (2402652809016115 / 8796093022208)"
  by (rule round_float_normalI [where e = "8" and n = 4805305618032230]) (simp_all add: pow2_def)

lemmas table_literals =
  round_0_01 round_0_001 round_1609_34 round_0_9144 round_0_3048 round_0_0254
  round_0_000001 round_0_453592 round_0_0283495 round_6_35029 round_2589988_11 round_0_836127
  round_0_092903 round_4046_86 round_0_0283168 round_0_0000163871 round_0_00378541 round_0_000946353
  round_0_000473176 round_0_0000295735 round_0_277778 round_0_44704 round_0_514444 round_4_184
  round_1_602177em19 round_6894_76 round_133_322 round_273_15

lemmas engine_defs = convert_def convert_on_def convert_temperature_def bind_def getitem_def
  py_add_def py_sub_def py_mul_def py_truediv_def as_float_def float_of_int_def float_truediv_def
  is_zero_def float_sub_def float_lit_def signed_def

section \<open>Known conversions\<close>

lemma fixed_point_1: "round_float s (1021398381089119 / 2251799813685248) = Finite s (1021398381089119 / 2251799813685248)"
  by (rule round_float_normalI [where e = "- 2" and n = 8171187048712952]) (simp_all add: pow2_def)

lemma fixed_point_2: "round_float s (2402652809016115 / 8796093022208) = Finite s (2402652809016115 / 8796093022208)"
  by (rule round_float_normalI [where e = "8" and n = 4805305618032230]) (simp_all add: pow2_def)


lemma kilometers_to_meters:
  "convert ''Length'' ''Kilometers'' ''Meters'' (float_lit 1) = Inr (float_lit 1000)"
  by (simp add: engine_defs CONVERSIONS_def round_float_numeral)

lemma pounds_to_kilograms:
  "convert ''Weight/Mass'' ''Pounds'' ''Kilograms'' (float_lit 1) = Inr (float_lit 0.453592)"
  by (simp add: engine_defs CONVERSIONS_def round_float_numeral round_0_453592 fixed_point_1)

lemma boiling_point:
  "convert ''Temperature'' ''Celsius'' ''Fahrenheit'' (float_lit 100) = Inr (float_lit 212)"
  by (simp add: engine_defs round_float_numeral)

lemma freezing_point:
  "convert ''Temperature'' ''Fahrenheit'' ''Celsius'' (float_lit 32) = Inr (float_lit 0)"
  by (simp add: engine_defs round_float_numeral)

lemma zero_celsius_in_kelvin:
  "convert ''Temperature'' ''Celsius'' ''Kelvin'' (float_lit 0) = Inr (float_lit 273.15)"
  by (simp add: engine_defs round_float_numeral round_273_15 fixed_point_2)

lemma pound_literal:
  "float_lit 0.453592 = Finite False (1021398381089119 / 2251799813685248)"
  by (simp add: float_lit_def round_0_453592)

text \<open>
  C5. The known fixed points hold: one kilometre is 1000 metres, one pound is the float
  written \<^verbatim>\<open>0.453592\<close> kilograms (which lies within \<open>10\<^sup>-\<^sup>1\<^sup>6\<close> of the decimal), 100 degrees
  Celsius are 212 Fahrenheit, 32 Fahrenheit are 0 Celsius and 0 Celsius are the float
  written \<^verbatim>\<open>273.15\<close> Kelvin.
\<close>

theorem known_fixed_points:
  "convert ''Length'' ''Kilometers'' ''Meters'' (float_lit 1) = Inr (float_lit 1000)
   \<and> convert ''Weight/Mass'' ''Pounds'' ''Kilograms'' (float_lit 1) = Inr (float_lit 0.453592)
   \<and> float_lit 0.453592 = Finite False (1021398381089119 / 2251799813685248)
   \<and> \<bar>1021398381089119 / 2251799813685248 - 0.453592\<bar> < (1 / 10 ^ 16 :: rat)
   \<and> convert ''Temperature'' ''Celsius'' ''Fahrenheit'' (float_lit 100) = Inr (float_lit 212)
   \<and> convert ''Temperature'' ''Fahrenheit'' ''Celsius'' (float_lit 32) = Inr (float_lit 0)
   \<and> convert ''Temperature'' ''Celsius'' ''Kelvin'' (float_lit 0) = Inr (float_lit 273.15)"
proof -
  have "\<bar>1021398381089119 / 2251799813685248 - 0.453592\<bar> < (1 / 10 ^ 16 :: rat)"
    by simp
  then show ?thesis
    using kilometers_to_meters pounds_to_kilograms pound_literal boiling_point freezing_point
      zero_celsius_in_kelvin
    by (intro conjI)
qed

section \<open>Celsius to Celsius\<close>

text \<open>
  C10. For the Temperature category with both units Celsius, the value is returned as it
  came in: no operation is applied to it, so the result is the same float, bit for bit,
  whatever the value (the zeros, the infinities and NaN included).
\<close>

theorem celsius_to_celsius_unchanged:
  "convert ''Temperature'' ''Celsius'' ''Celsius'' v = Inr v"
  by (simp add: convert_def convert_on_def convert_temperature_def bind_def)

section \<open>Listing categories and units\<close>

lemma categories_eq:
  "categories = [''Length'', ''Weight/Mass'', ''Temperature'', ''Area'', ''Volume'', ''Speed'',
                 ''Time'', ''Digital Storage'', ''Energy'', ''Pressure'']"
  by (simp add: categories_def categories_on_def keys_def CONVERSIONS_def)

lemma units_length:
  "units ''Length'' = Inr [''Meters'', ''Kilometers'', ''Centimeters'', ''Millimeters'', ''Miles'',
                          ''Yards'', ''Feet'', ''Inches'', ''Nautical Miles'']"
  by (simp add: units_def units_on_def keys_def CONVERSIONS_def getitem_def bind_def)

lemma getitem_missing: "k \<notin> set (keys d) \<Longrightarrow> getitem d k = Inl (KeyError k)"
proof -
  assume "k \<notin> set (keys d)"
  then have "map_of d k = None" by (simp add: keys_def map_of_eq_None_iff)
  then show ?thesis by (simp add: getitem_def)
qed

lemma units_missing: "c \<notin> set categories \<Longrightarrow> units c = Inl (KeyError c)"
  by (simp add: units_def units_on_def categories_def categories_on_def getitem_missing bind_def)

text \<open>
  C7. \<open>categories\<close> is the list of the ten categories in the order of the table,
  \<open>units ''Length''\<close> is the list of the nine length units in the order of the table, and
  \<open>units c\<close> fails with \<^verbatim>\<open>KeyError(c)\<close> for every category that is not in the table.
\<close>

theorem listing:
  "categories = [''Length'', ''Weight/Mass'', ''Temperature'', ''Area'', ''Volume'', ''Speed'',
                 ''Time'', ''Digital Storage'', ''Energy'', ''Pressure'']
   \<and> length categories = 10
   \<and> units ''Length'' = Inr [''Meters'', ''Kilometers'', ''Centimeters'', ''Millimeters'',
                              ''Miles'', ''Yards'', ''Feet'', ''Inches'', ''Nautical Miles'']
   \<and> (\<forall>c. c \<notin> set categories \<longrightarrow> units c = Inl (KeyError c))"
proof -
  have "length categories = 10" by (simp add: categories_eq)
  then show ?thesis using categories_eq units_length units_missing by blast
qed

theorem listing_witness:
  "''Imaginary'' \<notin> set categories \<and> units ''Imaginary'' = Inl (KeyError ''Imaginary'')"
proof -
  have h: "''Imaginary'' \<notin> set categories" by (simp add: categories_eq)
  from listing have "\<forall>c. c \<notin> set categories \<longrightarrow> units c = Inl (KeyError c)" by blast
  with h show ?thesis by blast
qed

section \<open>The table: its invariant, and what invocations leave behind\<close>

lemmas coerce_defs = as_float_def float_of_int_def float_lit_def round_float_numeral table_literals

lemma table_invariant_CONVERSIONS: "table_invariant CONVERSIONS"
  unfolding table_invariant_def CONVERSIONS_def
  by (simp add: positive_factor_def base_units_def coerce_defs)

lemma serve_table: "snd (serve tbl r) = tbl"
  by (cases r) simp_all

lemma run_table: "snd (run tbl rs) = tbl"
proof (induction rs)
  case Nil
  show ?case by simp
next
  case (Cons r rs)
  obtain a where a: "serve tbl r = (a, tbl)" using serve_table [of tbl r] by (cases "serve tbl r") simp
  obtain as where as: "run tbl rs = (as, tbl)" using Cons by (cases "run tbl rs") simp
  show ?case by (simp add: a as)
qed

lemma table_invariantD:
  assumes "table_invariant tbl" and "(c, d) \<in> set tbl" and "c \<noteq> ''Temperature''"
  shows "(u, x) \<in> set d \<Longrightarrow> positive_factor x" and "length (base_units d) = 1"
  using assms by (auto simp: table_invariant_def)

lemma base_unit_of_each_category:
  "map (\<lambda>(c, d). (c, base_units d)) (filter (\<lambda>(c, d). c \<noteq> ''Temperature'') CONVERSIONS) =
     [(''Length'', [''Meters'']), (''Weight/Mass'', [''Kilograms'']), (''Area'', [''Square Meters'']),
      (''Volume'', [''Cubic Meters'']), (''Speed'', [''Meters per Second'']), (''Time'', [''Seconds'']),
      (''Digital Storage'', [''Bytes'']), (''Energy'', [''Joules'']), (''Pressure'', [''Pascal''])]"
  unfolding CONVERSIONS_def by (simp add: base_units_def coerce_defs)

text \<open>
  C8. The table satisfies the invariant: in every category other than Temperature each
  scale factor is a strictly positive float and exactly one unit, the base unit, has the
  factor 1 (the base units are listed). No invocation changes the table: after any
  sequence of conversions and listings the table is the initial one, so the invariant is
  preserved.
\<close>

theorem table_invariant_holds:
  "table_invariant CONVERSIONS
   \<and> map (\<lambda>(c, d). (c, base_units d)) (filter (\<lambda>(c, d). c \<noteq> ''Temperature'') CONVERSIONS) =
       [(''Length'', [''Meters'']), (''Weight/Mass'', [''Kilograms'']), (''Area'', [''Square Meters'']),
        (''Volume'', [''Cubic Meters'']), (''Speed'', [''Meters per Second'']), (''Time'', [''Seconds'']),
        (''Digital Storage'', [''Bytes'']), (''Energy'', [''Joules'']), (''Pressure'', [''Pascal''])]
   \<and> (\<forall>rs. snd (run CONVERSIONS rs) = CONVERSIONS)
   \<and> (\<forall>rs. table_invariant (snd (run CONVERSIONS rs)))"
proof -
  have a: "\<forall>rs. snd (run CONVERSIONS rs) = CONVERSIONS" by (simp only: run_table simp_thms)
  have b: "\<forall>rs. table_invariant (snd (run CONVERSIONS rs))"
    by (simp only: run_table table_invariant_CONVERSIONS simp_thms)
  from table_invariant_CONVERSIONS base_unit_of_each_category a b show ?thesis
    by (intro conjI)
qed

theorem table_invariant_witness:
  "(''Digital Storage'',
      [(''Bytes'', PyInt 1), (''Kilobytes'', PyInt 1024), (''Megabytes'', PyInt 1048576),
       (''Gigabytes'', PyInt 1073741824), (''Terabytes'', PyInt 1099511627776)]) \<in> set CONVERSIONS
   \<and> ''Digital Storage'' \<noteq> ''Temperature''
   \<and> positive_factor (PyInt 1024)
   \<and> length (base_units
         [(''Bytes'', PyInt 1), (''Kilobytes'', PyInt 1024), (''Megabytes'', PyInt 1048576),
          (''Gigabytes'', PyInt 1073741824), (''Terabytes'', PyInt 1099511627776)]) = 1"
proof -
  let ?d = "[(''Bytes'', PyInt 1), (''Kilobytes'', PyInt 1024), (''Megabytes'', PyInt 1048576),
             (''Gigabytes'', PyInt 1073741824), (''Terabytes'', PyInt 1099511627776)]"
  have m: "(''Digital Storage'', ?d) \<in> set CONVERSIONS" by (simp add: CONVERSIONS_def)
  have n: "''Digital Storage'' \<noteq> ''Temperature''" by simp
  have k: "(''Kilobytes'', PyInt 1024) \<in> set ?d" by simp
  have inv: "table_invariant CONVERSIONS" using table_invariant_holds by (rule conjunct1)
  have p: "positive_factor (PyInt 1024)" by (rule table_invariantD(1) [OF inv m n k])
  have l: "length (base_units ?d) = 1" by (rule table_invariantD(2) [OF inv m n])
  from m n p l show ?thesis by (intro conjI)
qed

section \<open>Temperature: two steps\<close>

lemma getitem_present:
  assumes "k \<in> set (keys d)"
  shows "\<exists>x. getitem d k = Inr x \<and> (k, x) \<in> set d"
proof -
  from assms have "map_of d k \<noteq> None" by (simp add: keys_def map_of_eq_None_iff)
  then obtain x where x: "map_of d k = Some x" by blast
  then have "(k, x) \<in> set d" by (rule map_of_SomeD)
  with x show ?thesis by (simp add: getitem_def)
qed

lemma getitem_cases:
  "(k \<notin> set (keys d) \<and> getitem d k = Inl (KeyError k))
   \<or> (k \<in> set (keys d) \<and> (\<exists>x. getitem d k = Inr x \<and> (k, x) \<in> set d))"
  using getitem_present [of k d] getitem_missing [of k d] by blast

lemma has_unit_iff:
  "has_unit c u \<longleftrightarrow> (\<exists>d. getitem CONVERSIONS c = Inr d \<and> u \<in> set (keys d))"
  by (cases "getitem CONVERSIONS c") (simp_all add: has_unit_def units_def units_on_def bind_def)

lemma float_of_small_int:
  "float_of_int 32 = Inr (float_lit 32)" "float_of_int 5 = Inr (float_lit 5)"
  "float_of_int 9 = Inr (float_lit 9)"
  by (simp_all add: float_of_int_def float_lit_def round_float_numeral)

lemma temperature_ops:
  "py_sub v (PyInt 32) = Inr (float_sub v (float_lit 32))"
  "py_mul v (PyInt 5) = Inr (float_mul v (float_lit 5))"
  "py_mul v (PyInt 9) = Inr (float_mul v (float_lit 9))"
  "py_truediv v (PyInt 9) = Inr (float_div v (float_lit 9))"
  "py_truediv v (PyInt 5) = Inr (float_div v (float_lit 5))"
  "py_add v (PyInt 32) = Inr (float_add v (float_lit 32))"
  "py_sub v (PyFloat x) = Inr (float_sub v x)"
  "py_add v (PyFloat x) = Inr (float_add v x)"
  by (simp_all add: py_add_def py_sub_def py_mul_def py_truediv_def as_float_def bind_def
      float_of_int_def float_lit_def round_float_numeral float_truediv_def is_zero_def)

lemma convert_temperature_steps:
  "convert_temperature v f t =
     Inr (let celsius = (if f = ''Fahrenheit''
                         then float_div (float_mul (float_sub v (float_lit 32)) (float_lit 5)) (float_lit 9)
                         else if f = ''Kelvin'' then float_sub v (float_lit 273.15) else v)
          in if t = ''Fahrenheit''
             then float_add (float_div (float_mul celsius (float_lit 9)) (float_lit 5)) (float_lit 32)
             else if t = ''Kelvin'' then float_add celsius (float_lit 273.15) else celsius)"
  by (simp add: convert_temperature_def bind_def temperature_ops Let_def)

lemma units_temperature: "units ''Temperature'' = Inr [''Celsius'', ''Fahrenheit'', ''Kelvin'']"
  by (simp add: units_def units_on_def keys_def CONVERSIONS_def getitem_def bind_def)

text \<open>
  C2. For the Temperature category and units of that category, \<open>convert\<close> is the second
  step applied to the result of the first: the value is normalised to Celsius
  (\<open>(value - 32) * 5 / 9\<close> from Fahrenheit, \<open>value - 273.15\<close> from Kelvin, unchanged from
  Celsius) and the Celsius value is converted to the target (\<open>celsius * 9 / 5 + 32\<close>,
  \<open>celsius + 273.15\<close>, unchanged). Nothing is said about the two units being different,
  so the same two steps are taken when they are equal.
\<close>

theorem temperature_two_steps:
  assumes "has_unit ''Temperature'' from_unit" and "has_unit ''Temperature'' to_unit"
  shows "\<exists>celsius result.
           normalize_to_celsius from_unit v = Some celsius
           \<and> celsius_to_unit to_unit celsius = Some result
           \<and> convert ''Temperature'' from_unit to_unit v = Inr result"
proof -
  have f: "from_unit = ''Celsius'' \<or> from_unit = ''Fahrenheit'' \<or> from_unit = ''Kelvin''"
    using assms(1) by (simp add: has_unit_def units_temperature)
  have t: "to_unit = ''Celsius'' \<or> to_unit = ''Fahrenheit'' \<or> to_unit = ''Kelvin''"
    using assms(2) by (simp add: has_unit_def units_temperature)
  have c: "convert ''Temperature'' from_unit to_unit v = convert_temperature v from_unit to_unit"
    by (simp add: convert_def convert_on_def)
  from f t show ?thesis
    unfolding c convert_temperature_steps normalize_to_celsius_def celsius_to_unit_def
    by (elim disjE) simp_all
qed



theorem temperature_two_steps_witness:
  "has_unit ''Temperature'' ''Kelvin'' \<and>
   (\<exists>celsius result.
      normalize_to_celsius ''Kelvin'' (float_lit 300) = Some celsius
      \<and> celsius_to_unit ''Kelvin'' celsius = Some result
      \<and> convert ''Temperature'' ''Kelvin'' ''Kelvin'' (float_lit 300) = Inr result)"
proof -
  have h: "has_unit ''Temperature'' ''Kelvin''" by (simp add: has_unit_def units_temperature)
  show ?thesis using h temperature_two_steps [OF h h, of "float_lit 300"] by simp
qed

section \<open>Errors\<close>

lemma getitem_entry: "getitem d k = Inr x \<Longrightarrow> (k, x) \<in> set d"
  by (auto simp: getitem_def split: option.splits dest: map_of_SomeD)

lemma categories_keys: "set categories = set (keys CONVERSIONS)"
  by (simp add: categories_def categories_on_def)

lemma linear_entry:
  assumes "getitem CONVERSIONS c = Inr d" and "c \<noteq> ''Temperature''" and "getitem d u = Inr x"
  shows "\<exists>m. as_float x = Inr (Finite False m) \<and> 0 < m"
proof -
  have "(c, d) \<in> set CONVERSIONS" using assms(1) by (rule getitem_entry)
  moreover have "(u, x) \<in> set d" using assms(3) by (rule getitem_entry)
  ultimately have "positive_factor x"
    using table_invariant_CONVERSIONS assms(2) unfolding table_invariant_def by blast
  then show ?thesis
    by (auto simp: positive_factor_def split: sum.splits float64.splits bool.splits if_splits)
qed

lemma convert_linear:
  assumes "getitem CONVERSIONS c = Inr d" and "c \<noteq> ''Temperature''"
    and "getitem d a = Inr xa" and "getitem d b = Inr xb"
  shows "\<exists>fa fb. as_float xa = Inr fa \<and> as_float xb = Inr fb
           \<and> convert c a b v = Inr (float_div (float_mul v fa) fb)"
proof -
  obtain ma where ma: "as_float xa = Inr (Finite False ma)" "0 < ma"
    using linear_entry [OF assms(1,2,3)] by blast
  obtain mb where mb: "as_float xb = Inr (Finite False mb)" "0 < mb"
    using linear_entry [OF assms(1,2,4)] by blast
  have "convert c a b v = Inr (float_div (float_mul v (Finite False ma)) (Finite False mb))"
    using assms mb(2)
    by (simp add: convert_def convert_on_def bind_def py_mul_def py_truediv_def ma(1) mb(1)
        float_truediv_def is_zero_def)
  with ma(1) mb(1) show ?thesis by blast
qed

lemma convert_temperature_total: "\<exists>r. convert ''Temperature'' f t v = Inr r"
  by (simp add: convert_def convert_on_def convert_temperature_steps)

lemma has_unit_category: "has_unit c u \<Longrightarrow> c \<in> set categories"
proof -
  assume "has_unit c u"
  then obtain d where "getitem CONVERSIONS c = Inr d" by (auto simp: has_unit_iff)
  then have "(c, d) \<in> set CONVERSIONS" by (rule getitem_entry)
  then show ?thesis by (force simp: categories_keys keys_def)
qed

text \<open>
  C6, as amended. \<open>convert\<close> fails exactly when the category is not Temperature and the
  category or one of the units is missing, and then with the \<^verbatim>\<open>KeyError\<close> of the first
  missing key (the category, else the source unit, else the target unit). For Temperature
  it never fails. No other error is raised for any value, the infinities and NaN included.
\<close>

theorem convert_errors:
  "convert c f t v = Inl e \<longleftrightarrow>
     c \<noteq> ''Temperature'' \<and>
     (c \<notin> set categories \<and> e = KeyError c
      \<or> c \<in> set categories \<and> \<not> has_unit c f \<and> e = KeyError f
      \<or> has_unit c f \<and> \<not> has_unit c t \<and> e = KeyError t)"
proof (cases "c = ''Temperature''")
  case True
  then show ?thesis using convert_temperature_total [of f t v] by auto
next
  case nt: False
  show ?thesis
  proof (cases "c \<in> set categories")
    case False
    then have g: "getitem CONVERSIONS c = Inl (KeyError c)"
      by (simp add: categories_keys getitem_missing)
    then have "convert c f t v = Inl (KeyError c)"
      using nt by (simp add: convert_def convert_on_def bind_def)
    moreover have "\<not> has_unit c f" using False has_unit_category by blast
    ultimately show ?thesis using nt False by auto
  next
    case True
    then obtain d where d: "getitem CONVERSIONS c = Inr d"
      using getitem_present [of c CONVERSIONS] by (auto simp: categories_keys)
    have hu: "has_unit c u \<longleftrightarrow> u \<in> set (keys d)" for u by (simp add: has_unit_iff d)
    show ?thesis
    proof (cases "f \<in> set (keys d)")
      case False
      then have "getitem d f = Inl (KeyError f)" by (rule getitem_missing)
      then have "convert c f t v = Inl (KeyError f)"
        using nt d by (simp add: convert_def convert_on_def bind_def)
      then show ?thesis using nt True False hu by auto
    next
      case inf: True
      then obtain xa where xa: "getitem d f = Inr xa" using getitem_present by blast
      obtain ma where ma: "as_float xa = Inr (Finite False ma)"
        using linear_entry [OF d nt xa] by blast
      show ?thesis
      proof (cases "t \<in> set (keys d)")
        case False
        then have "getitem d t = Inl (KeyError t)" by (rule getitem_missing)
        then have "convert c f t v = Inl (KeyError t)"
          using nt d xa ma by (simp add: convert_def convert_on_def bind_def py_mul_def)
        then show ?thesis using nt True inf False hu by auto
      next
        case int: True
        then obtain xb where xb: "getitem d t = Inr xb" using getitem_present by blast
        obtain r where "convert c f t v = Inr r" using convert_linear [OF d nt xa xb] by blast
        then show ?thesis using nt True inf int hu by auto
      qed
    qed
  qed
qed

lemma has_unit_length:
  "has_unit ''Length'' u \<longleftrightarrow> u \<in> set [''Meters'', ''Kilometers'', ''Centimeters'', ''Millimeters'',
      ''Miles'', ''Yards'', ''Feet'', ''Inches'', ''Nautical Miles'']"
  by (simp add: has_unit_def units_length)

theorem convert_errors_witness:
  "convert ''Length'' ''Furlongs'' ''Meters'' (float_lit 1) = Inl (KeyError ''Furlongs'')
   \<and> convert ''Imaginary'' ''A'' ''B'' (float_lit 1) = Inl (KeyError ''Imaginary'')
   \<and> convert ''Length'' ''Meters'' ''Furlongs'' NaN = Inl (KeyError ''Furlongs'')
   \<and> (\<forall>e. convert ''Length'' ''Meters'' ''Feet'' (Infinity False) \<noteq> Inl e)"
proof -
  have l: "''Length'' \<in> set categories" and i: "''Imaginary'' \<notin> set categories"
    by (simp_all add: categories_eq)
  have 1: "convert ''Length'' ''Furlongs'' ''Meters'' (float_lit 1) = Inl (KeyError ''Furlongs'')"
    using convert_errors [of "''Length''" "''Furlongs''" "''Meters''" "float_lit 1" "KeyError ''Furlongs''"] l
    by (simp add: has_unit_length)
  have 2: "convert ''Imaginary'' ''A'' ''B'' (float_lit 1) = Inl (KeyError ''Imaginary'')"
    using convert_errors [of "''Imaginary''" "''A''" "''B''" "float_lit 1" "KeyError ''Imaginary''"] i
    by simp
  have 3: "convert ''Length'' ''Meters'' ''Furlongs'' NaN = Inl (KeyError ''Furlongs'')"
    using convert_errors [of "''Length''" "''Meters''" "''Furlongs''" NaN "KeyError ''Furlongs''"] l
    by (simp add: has_unit_length)
  have 4: "convert ''Length'' ''Meters'' ''Feet'' (Infinity False) \<noteq> Inl e" for e
    using convert_errors [of "''Length''" "''Meters''" "''Feet''" "Infinity False" e] l
    by (simp add: has_unit_length)
  from 1 2 3 4 show ?thesis by blast
qed

text \<open>
  C6 as stated fails for Temperature: a unit that is not in the category is taken for
  Celsius and the conversion returns a value.
\<close>

theorem temperature_unknown_unit_counterexample:
  "\<not> has_unit ''Temperature'' ''Furlongs''
   \<and> convert ''Temperature'' ''Furlongs'' ''Celsius'' (float_lit 1) = Inr (float_lit 1)"
  by (simp add: has_unit_def units_temperature convert_def convert_on_def convert_temperature_def bind_def)

section \<open>A large float\<close>

lemma huge_finite: "is_finite huge"
proof -
  have "round_float False (pow2 1023) = Finite False (pow2 1023)"
    using round_float_exact [of 1 1023 False] by (simp add: pow2_def)
  then show ?thesis using pow2_pos [of 1023] by (simp add: is_finite_def huge_def)
qed

lemma huge_times_1000: "float_mul huge (Finite False 1000) = Infinity False"
proof -
  have "round_float False (pow2 1023 * 1000) = Infinity False"
    by (rule round_float_overflowI [where e = 1032 and n = "1000 * 2 ^ 43"])
       (simp_all add: pow2_def)
  then show ?thesis by (simp add: huge_def)
qed

lemma huge_times_5: "float_mul huge (Finite False 5) = Infinity False"
proof -
  have "round_float False (pow2 1023 * 5) = Infinity False"
    by (rule round_float_overflowI [where e = 1025 and n = "5 * 2 ^ 50"])
       (simp_all add: pow2_def)
  then show ?thesis by (simp add: huge_def)
qed

lemma huge_minus_32: "float_sub huge (Finite False 32) = huge"
proof -
  have r: "round_float False (pow2 1023 - 32) = Finite False (pow2 1023)"
    by (rule round_float_normalI [where e = 1022 and n = "2 ^ 53"])
       (simp_all add: pow2_def)
  have p: "\<not> pow2 1023 < 32" "pow2 1023 \<noteq> 32" "\<bar>pow2 1023 - 32\<bar> = pow2 1023 - 32"
    by (simp_all add: pow2_def)
  show ?thesis
    by (simp add: huge_def float_sub_def signed_def Let_def p r del: abs_of_nonneg)
qed

section \<open>Linear categories\<close>

lemma exact_entries:
  "\<forall>(c, d) \<in> set CONVERSIONS. c \<noteq> ''Temperature'' \<longrightarrow> (\<forall>(u, x) \<in> set d. plain_factor x)"
  unfolding CONVERSIONS_def
  by (simp add: plain_factor_def coerce_defs exact_of_def signed_def)

lemma exact_entry:
  assumes "getitem CONVERSIONS c = Inr d" and "c \<noteq> ''Temperature''" and "getitem d u = Inr x"
  shows "\<exists>m. as_float x = Inr (Finite False m) \<and> exact_of x = Inr m \<and> 0 < m"
proof -
  have "(c, d) \<in> set CONVERSIONS" using assms(1) by (rule getitem_entry)
  moreover have "(u, x) \<in> set d" using assms(3) by (rule getitem_entry)
  ultimately have "plain_factor x" using exact_entries assms(2) by blast
  then show ?thesis
    by (auto simp: plain_factor_def split: sum.splits float64.splits bool.splits)
qed

lemma linear_unit:
  assumes "c \<noteq> ''Temperature''" and "has_unit c u"
  shows "\<exists>d x m. getitem CONVERSIONS c = Inr d \<and> getitem d u = Inr x
           \<and> as_float x = Inr (Finite False m) \<and> exact_of x = Inr m \<and> 0 < m"
proof -
  obtain d where d: "getitem CONVERSIONS c = Inr d" "u \<in> set (keys d)"
    using assms(2) by (auto simp: has_unit_iff)
  obtain x where x: "getitem d u = Inr x" using d(2) getitem_present by blast
  show ?thesis using exact_entry [OF d(1) assms(1) x] d(1) x by blast
qed

lemma linear_pair:
  assumes "c \<noteq> ''Temperature''" and "has_unit c a" and "has_unit c b"
  shows "\<exists>ma mb. 0 < ma \<and> 0 < mb
           \<and> factor c a = Inr (Finite False ma) \<and> factor c b = Inr (Finite False mb)
           \<and> exact_factor c a = Inr ma \<and> exact_factor c b = Inr mb
           \<and> (\<forall>v. convert c a b v = Inr (float_div (float_mul v (Finite False ma)) (Finite False mb)))
           \<and> (\<forall>q. convert_exact c a b q = Inr (q * ma / mb))"
proof -
  obtain d xa ma where a: "getitem CONVERSIONS c = Inr d" "getitem d a = Inr xa"
      "as_float xa = Inr (Finite False ma)" "exact_of xa = Inr ma" "0 < ma"
    using linear_unit [OF assms(1,2)] by blast
  obtain d' xb mb where b: "getitem CONVERSIONS c = Inr d'" "getitem d' b = Inr xb"
      "as_float xb = Inr (Finite False mb)" "exact_of xb = Inr mb" "0 < mb"
    using linear_unit [OF assms(1,3)] by blast
  have dd: "d' = d" using a(1) b(1) by simp
  have 1: "factor c a = Inr (Finite False ma)" "factor c b = Inr (Finite False mb)"
    using a b by (simp_all add: factor_def bind_def)
  have 2: "exact_factor c a = Inr ma" "exact_factor c b = Inr mb"
    using a b by (simp_all add: exact_factor_def bind_def)
  have 3: "convert c a b v = Inr (float_div (float_mul v (Finite False ma)) (Finite False mb))" for v
    using assms(1) a b
    by (simp add: convert_def convert_on_def bind_def py_mul_def py_truediv_def float_truediv_def is_zero_def)
  have 4: "convert_exact c a b q = Inr (q * ma / mb)" for q
    using assms(1) a b by (simp add: convert_exact_def bind_def exact_truediv_def)
  from a(5) b(5) 1 2 3 4 show ?thesis by blast
qed

lemma ranged_entries:
  "\<forall>(c, d) \<in> set CONVERSIONS. c \<noteq> ''Temperature'' \<longrightarrow> (\<forall>(u, x) \<in> set d. ranged_factor x)"
  unfolding CONVERSIONS_def
  by (simp add: ranged_factor_def coerce_defs)

lemma factor_range:
  assumes "c \<noteq> ''Temperature''" and "factor c u = Inr (Finite False m)"
  shows "in_range (- 64) 41 m"
proof -
  obtain d where d: "getitem CONVERSIONS c = Inr d"
    using assms(2) by (cases "getitem CONVERSIONS c") (simp_all add: factor_def bind_def)
  obtain x where x: "getitem d u = Inr x"
    using assms(2) d by (cases "getitem d u") (simp_all add: factor_def bind_def)
  have f: "as_float x = Inr (Finite False m)" using assms(2) d x by (simp add: factor_def bind_def)
  have "(c, d) \<in> set CONVERSIONS" using d by (rule getitem_entry)
  moreover have "(u, x) \<in> set d" using x by (rule getitem_entry)
  ultimately have "ranged_factor x" using ranged_entries assms(1) by blast
  then show ?thesis by (simp add: ranged_factor_def f in_range_def pow2_def)
qed

lemma scaled_near:
  assumes fa: "0 < fa" and fb: "0 < fb"
    and p: "in_range (- 1020) 1020 (m * fa)" and q: "in_range (- 1020) 1020 (m * fa / fb)"
  shows "\<exists>w. float_div (float_mul (Finite s m) (Finite False fa)) (Finite False fb) = Finite s w
             \<and> near 2 (m * fa / fb) w"
proof -
  obtain p1 where p1: "round_float s (m * fa) = Finite s p1" "near 1 (m * fa) p1"
    using round_in_range [OF p, of s] by auto
  have n1: "near 1 (m * fa / fb) (p1 / fb)" using fb p1(2) by (rule near_div)
  have "in_range (- 1020 - 1) (1020 + 1) (p1 / fb)" using q n1 by (rule in_range_near) simp
  then obtain w where w: "round_float s (p1 / fb) = Finite s w" "near 1 (p1 / fb) w"
    using round_in_range [of "- 1020 - 1" "1020 + 1" "p1 / fb" s] by auto
  have pos: "0 \<le> m * fa / fb" using in_range_pos [OF q] by simp
  have "near (1 + 1) (m * fa / fb) w" using pos n1 w(2) by (rule near_trans)
  then have "near 2 (m * fa / fb) w" by (simp add: numeral_2_eq_2)
  moreover have "float_div (float_mul (Finite s m) (Finite False fa)) (Finite False fb) = Finite s w"
    by (simp add: p1(1) w(1))
  ultimately show ?thesis by blast
qed

lemma scaled_zero:
  "float_div (float_mul (Finite s 0) (Finite False fa)) (Finite False fb) = Finite s 0"
  by simp

lemma linear_pair_ranged:
  assumes "c \<noteq> ''Temperature''" and "has_unit c a" and "has_unit c b"
  shows "\<exists>fa fb. in_range (- 64) 41 fa \<and> in_range (- 64) 41 fb
           \<and> exact_factor c a = Inr fa \<and> exact_factor c b = Inr fb
           \<and> (\<forall>v. convert c a b v = Inr (float_div (float_mul v (Finite False fa)) (Finite False fb)))"
proof -
  obtain fa fb where f: "factor c a = Inr (Finite False fa)" "factor c b = Inr (Finite False fb)"
      "exact_factor c a = Inr fa" "exact_factor c b = Inr fb"
      "\<forall>v. convert c a b v = Inr (float_div (float_mul v (Finite False fa)) (Finite False fb))"
    using linear_pair [OF assms] by blast
  have "in_range (- 64) 41 fa" "in_range (- 64) 41 fb"
    using factor_range [OF assms(1)] f(1,2) by blast+
  with f(3,4,5) show ?thesis by blast
qed

lemma self_tolerance:
  assumes "c \<noteq> ''Temperature''" and "has_unit c u"
    and m: "m = 0 \<or> pow2 (- 900) \<le> m \<and> m \<le> pow2 900"
  shows "\<exists>r. convert c u u (Finite s m) = Inr (Finite s r) \<and> \<bar>r - m\<bar> \<le> m / 2 ^ 51"
proof -
  obtain f f' where ff: "in_range (- 64) 41 f" "exact_factor c u = Inr f" "exact_factor c u = Inr f'"
      "\<forall>v. convert c u u v = Inr (float_div (float_mul v (Finite False f)) (Finite False f'))"
    using linear_pair_ranged [OF assms(1,2,2)] by blast
  have "f' = f" using ff(2,3) by simp
  with ff have f: "in_range (- 64) 41 f"
      "\<forall>v. convert c u u v = Inr (float_div (float_mul v (Finite False f)) (Finite False f))"
    by simp_all
  have pos: "0 < f" using f(1) by (rule in_range_pos)
  show ?thesis
  proof (cases "m = 0")
    case True
    then show ?thesis using f(2) by simp
  next
    case False
    then have r: "in_range (- 900) 900 m" using m by (simp add: in_range_def)
    have "in_range (- 900 + - 64) (900 + 41) (m * f)" using r f(1) by (rule in_range_mult)
    then have p: "in_range (- 1020) 1020 (m * f)" by (rule in_range_widen) simp_all
    have e: "m * f / f = m" using pos by simp
    have q: "in_range (- 1020) 1020 (m * f / f)"
      unfolding e using r by (rule in_range_widen) simp_all
    obtain w where w: "float_div (float_mul (Finite s m) (Finite False f)) (Finite False f) = Finite s w"
        "near 2 (m * f / f) w"
      using scaled_near [OF pos pos p q, of s] by blast
    have "0 \<le> m" using in_range_pos [OF r] by simp
    then have "\<bar>w - m\<bar> \<le> m / 2 ^ 51" using w(2) unfolding e by (rule near_two_error)
    then show ?thesis using f(2) w(1) by simp
  qed
qed

lemma round_trip_tolerance:
  assumes "c \<noteq> ''Temperature''" and "has_unit c a" and "has_unit c b"
    and m: "m = 0 \<or> pow2 (- 900) \<le> m \<and> m \<le> pow2 900"
  shows "\<exists>w r. convert c a b (Finite s m) = Inr (Finite s w)
               \<and> convert c b a (Finite s w) = Inr (Finite s r)
               \<and> \<bar>r - m\<bar> \<le> m / 2 ^ 50"
proof -
  obtain fa fb where f: "in_range (- 64) 41 fa" "in_range (- 64) 41 fb"
      "exact_factor c a = Inr fa" "exact_factor c b = Inr fb"
      "\<forall>v. convert c a b v = Inr (float_div (float_mul v (Finite False fa)) (Finite False fb))"
    using linear_pair_ranged [OF assms(1,2,3)] by blast
  obtain fb' fa' where f': "exact_factor c b = Inr fb'" "exact_factor c a = Inr fa'"
      "\<forall>v. convert c b a v = Inr (float_div (float_mul v (Finite False fb')) (Finite False fa'))"
    using linear_pair_ranged [OF assms(1,3,2)] by blast
  have same: "fa' = fa" "fb' = fb" using f(3,4) f'(1,2) by simp_all
  have rev: "convert c b a v = Inr (float_div (float_mul v (Finite False fb)) (Finite False fa))" for v
    using f'(3) by (simp add: same)
  have pa: "0 < fa" and pb: "0 < fb" using f(1,2) in_range_pos by blast+
  show ?thesis
  proof (cases "m = 0")
    case True
    then show ?thesis using f(5) rev by simp
  next
    case False
    then have r: "in_range (- 900) 900 m" using m by (simp add: in_range_def)
    have m0: "0 \<le> m" using in_range_pos [OF r] by simp
    have a1: "in_range (- 900 + - 64) (900 + 41) (m * fa)" using r f(1) by (rule in_range_mult)
    have a2: "in_range (- 900 + - 64 - 41) (900 + 41 - - 64) (m * fa / fb)"
      using a1 f(2) by (rule in_range_div)
    have p1: "in_range (- 1020) 1020 (m * fa)" using a1 by (rule in_range_widen) simp_all
    have q1: "in_range (- 1020) 1020 (m * fa / fb)" using a2 by (rule in_range_widen) simp_all
    obtain w where w: "float_div (float_mul (Finite s m) (Finite False fa)) (Finite False fb) = Finite s w"
        "near 2 (m * fa / fb) w"
      using scaled_near [OF pa pb p1 q1, of s] by blast
    have "near 2 (m * fa / fb * fb) (w * fb)" using w(2) pb by (intro near_mult) simp_all
    then have n2: "near 2 (m * fa) (w * fb)" using pb by simp
    have "near 2 (m * fa / fa) (w * fb / fa)" using pa n2 by (rule near_div)
    then have n3: "near 2 m (w * fb / fa)" using pa by simp
    have "in_range (- 900 + - 64 - 1) (900 + 41 + 1) (w * fb)" using a1 n2 by (rule in_range_near) simp
    then have p2: "in_range (- 1020) 1020 (w * fb)" by (rule in_range_widen) simp_all
    have "in_range (- 900 - 1) (900 + 1) (w * fb / fa)" using r n3 by (rule in_range_near) simp
    then have q2: "in_range (- 1020) 1020 (w * fb / fa)" by (rule in_range_widen) simp_all
    obtain x where x: "float_div (float_mul (Finite s w) (Finite False fb)) (Finite False fa) = Finite s x"
        "near 2 (w * fb / fa) x"
      using scaled_near [OF pb pa p2 q2, of s] by blast
    have "near (2 + 2) m x" using m0 n3 x(2) by (rule near_trans)
    then have "\<bar>x - m\<bar> \<le> m / 2 ^ 50" using m0 by (intro near_four_error [of m "2 + 2"]) simp_all
    then show ?thesis using f(5) rev w(1) x(1) by simp
  qed
qed

lemma linearity_tolerance:
  assumes "c \<noteq> ''Temperature''" and "has_unit c a" and "has_unit c b"
    and k: "pow2 (- 450) \<le> mk" "mk \<le> pow2 450" and v: "pow2 (- 450) \<le> mv" "mv \<le> pow2 450"
  shows "\<exists>fa fb x y w z.
           exact_factor c a = Inr fa \<and> exact_factor c b = Inr fb
           \<and> float_mul (Finite sk mk) (Finite sv mv) = Finite (sk \<noteq> sv) x
           \<and> convert c a b (Finite (sk \<noteq> sv) x) = Inr (Finite (sk \<noteq> sv) y)
           \<and> convert c a b (Finite sv mv) = Inr (Finite sv w)
           \<and> float_mul (Finite sk mk) (Finite sv w) = Finite (sk \<noteq> sv) z
           \<and> \<bar>y - z\<bar> \<le> (mk * mv * fa / fb) / 2 ^ 49"
proof -
  obtain fa fb where f: "in_range (- 64) 41 fa" "in_range (- 64) 41 fb"
      "exact_factor c a = Inr fa" "exact_factor c b = Inr fb"
      "\<forall>v. convert c a b v = Inr (float_div (float_mul v (Finite False fa)) (Finite False fb))"
    using linear_pair_ranged [OF assms(1,2,3)] by blast
  have pa: "0 < fa" and pb: "0 < fb" using f(1,2) in_range_pos by blast+
  have rk: "in_range (- 450) 450 mk" and rv: "in_range (- 450) 450 mv"
    using k v by (simp_all add: in_range_def)
  have k0: "0 \<le> mk" using in_range_pos [OF rk] by simp
  define E where "E = mk * mv * fa / fb"
  have kv: "in_range (- 450 + - 450) (450 + 450) (mk * mv)" using rk rv by (rule in_range_mult)
  have kva: "in_range (- 450 + - 450 + - 64) (450 + 450 + 41) (mk * mv * fa)"
    using kv f(1) by (rule in_range_mult)
  have rE: "in_range (- 450 + - 450 + - 64 - 41) (450 + 450 + 41 - - 64) E"
    unfolding E_def using kva f(2) by (rule in_range_div)
  have E0: "0 \<le> E" using in_range_pos [OF rE] by simp
  \<comment> \<open>the product of the two values, then its conversion\<close>
  obtain x where x: "round_float (sk \<noteq> sv) (mk * mv) = Finite (sk \<noteq> sv) x" "near 1 (mk * mv) x"
    using round_in_range [OF kv, of "sk \<noteq> sv"] by auto
  have nxa: "near 1 (mk * mv * fa) (x * fa)" using x(2) pa by (intro near_mult) simp_all
  have "near 1 (mk * mv * fa / fb) (x * fa / fb)" using pb nxa by (rule near_div)
  then have nxE: "near 1 E (x * fa / fb)" by (simp add: E_def)
  have "in_range (- 450 + - 450 + - 64 - 1) (450 + 450 + 41 + 1) (x * fa)"
    using kva nxa by (rule in_range_near) simp
  then have p1: "in_range (- 1020) 1020 (x * fa)" by (rule in_range_widen) simp_all
  have "in_range (- 450 + - 450 + - 64 - 41 - 1) (450 + 450 + 41 - - 64 + 1) (x * fa / fb)"
    using rE nxE by (rule in_range_near) simp
  then have q1: "in_range (- 1020) 1020 (x * fa / fb)" by (rule in_range_widen) simp_all
  obtain y where y: "float_div (float_mul (Finite (sk \<noteq> sv) x) (Finite False fa)) (Finite False fb)
        = Finite (sk \<noteq> sv) y" "near 2 (x * fa / fb) y"
    using scaled_near [OF pa pb p1 q1, of "sk \<noteq> sv"] by blast
  have "near (1 + 2) E y" using E0 nxE y(2) by (rule near_trans)
  then have ey: "\<bar>y - E\<bar> \<le> E / 2 ^ 50" using E0 by (intro near_four_error [of E "1 + 2"]) simp_all
  \<comment> \<open>the conversion of the value, then its product\<close>
  have va: "in_range (- 450 + - 64) (450 + 41) (mv * fa)" using rv f(1) by (rule in_range_mult)
  have vab: "in_range (- 450 + - 64 - 41) (450 + 41 - - 64) (mv * fa / fb)"
    using va f(2) by (rule in_range_div)
  have p2: "in_range (- 1020) 1020 (mv * fa)" using va by (rule in_range_widen) simp_all
  have q2: "in_range (- 1020) 1020 (mv * fa / fb)" using vab by (rule in_range_widen) simp_all
  obtain w where w: "float_div (float_mul (Finite sv mv) (Finite False fa)) (Finite False fb) = Finite sv w"
      "near 2 (mv * fa / fb) w"
    using scaled_near [OF pa pb p2 q2, of sv] by blast
  have "near 2 (mv * fa / fb * mk) (w * mk)" using k0 w(2) by (rule near_mult)
  then have nkw: "near 2 E (mk * w)" by (simp add: E_def mult.commute mult.left_commute)
  have "in_range (- 450 + - 450 + - 64 - 41 - 1) (450 + 450 + 41 - - 64 + 1) (mk * w)"
    using rE nkw by (rule in_range_near) simp
  then have "in_range (- 1020) 1020 (mk * w)" by (rule in_range_widen) simp_all
  then obtain z where z: "round_float (sk \<noteq> sv) (mk * w) = Finite (sk \<noteq> sv) z" "near 1 (mk * w) z"
    using round_in_range [of "- 1020" 1020 "mk * w" "sk \<noteq> sv"] by auto
  have "near (2 + 1) E z" using E0 nkw z(2) by (rule near_trans)
  then have ez: "\<bar>z - E\<bar> \<le> E / 2 ^ 50" using E0 by (intro near_four_error [of E "2 + 1"]) simp_all
  have "\<bar>y - z\<bar> \<le> \<bar>y - E\<bar> + \<bar>z - E\<bar>" by linarith
  also have "\<dots> \<le> E / 2 ^ 50 + E / 2 ^ 50" using ey ez by linarith
  also have "\<dots> = E / 2 ^ 49" by simp
  finally have d: "\<bar>y - z\<bar> \<le> (mk * mv * fa / fb) / 2 ^ 49" by (simp add: E_def)
  have 1: "float_mul (Finite sk mk) (Finite sv mv) = Finite (sk \<noteq> sv) x" using x(1) by simp
  have 2: "convert c a b (Finite (sk \<noteq> sv) x) = Inr (Finite (sk \<noteq> sv) y)" using f(5) y(1) by simp
  have 3: "convert c a b (Finite sv mv) = Inr (Finite sv w)" using f(5) w(1) by simp
  have 4: "float_mul (Finite sk mk) (Finite sv w) = Finite (sk \<noteq> sv) z" using z(1) by simp
  from f(3,4) 1 2 3 4 d show ?thesis by blast
qed

text \<open>
  C1, as amended. For every category other than Temperature and units \<open>a\<close>, \<open>b\<close> of it,
  \<open>convert\<close> returns, for every float, the float quotient of the float product:
  \<open>value * factor a\<close> rounded, divided by \<open>factor b\<close> and rounded again. Computed exactly,
  the result is \<open>value * factor a / factor b\<close>, and scaling the value by \<open>k\<close> scales the
  result by \<open>k\<close>. In floats, for \<open>k\<close> and a value of magnitudes between \<open>2\<^sup>-\<^sup>4\<^sup>5\<^sup>0\<close> and
  \<open>2\<^sup>4\<^sup>5\<^sup>0\<close>, the conversion of \<open>k * value\<close> and \<open>k\<close> times the conversion of the value are
  finite, have the same sign, and differ by at most \<open>2\<^sup>-\<^sup>4\<^sup>9\<close> of the exact result.
\<close>

theorem linear_conversion:
  assumes "c \<noteq> ''Temperature''" and "has_unit c a" and "has_unit c b"
  shows "\<exists>fa fb xa xb.
           factor c a = Inr fa \<and> factor c b = Inr fb
           \<and> (\<forall>v. convert c a b v = Inr (float_div (float_mul v fa) fb))
           \<and> exact_factor c a = Inr xa \<and> exact_factor c b = Inr xb
           \<and> fa = Finite False xa \<and> fb = Finite False xb
           \<and> (\<forall>q. convert_exact c a b q = Inr (q * xa / xb))
           \<and> (\<forall>k q. convert_exact c a b (k * q) = Inr (k * (q * xa / xb)))
           \<and> (\<forall>sk mk sv mv.
                 pow2 (- 450) \<le> mk \<longrightarrow> mk \<le> pow2 450 \<longrightarrow> pow2 (- 450) \<le> mv \<longrightarrow> mv \<le> pow2 450 \<longrightarrow>
                 (\<exists>x y w z.
                    float_mul (Finite sk mk) (Finite sv mv) = Finite (sk \<noteq> sv) x
                    \<and> convert c a b (Finite (sk \<noteq> sv) x) = Inr (Finite (sk \<noteq> sv) y)
                    \<and> convert c a b (Finite sv mv) = Inr (Finite sv w)
                    \<and> float_mul (Finite sk mk) (Finite sv w) = Finite (sk \<noteq> sv) z
                    \<and> \<bar>y - z\<bar> \<le> (mk * mv * xa / xb) / 2 ^ 49))"
proof -
  obtain ma mb where m: "factor c a = Inr (Finite False ma)" "factor c b = Inr (Finite False mb)"
      "exact_factor c a = Inr ma" "exact_factor c b = Inr mb"
      "\<forall>v. convert c a b v = Inr (float_div (float_mul v (Finite False ma)) (Finite False mb))"
      "\<forall>q. convert_exact c a b q = Inr (q * ma / mb)"
    using linear_pair [OF assms] by blast
  have s: "convert_exact c a b (k * q) = Inr (k * (q * ma / mb))" for k q
    using m(6) by (simp add: mult.assoc)
  have t: "\<exists>x y w z.
        float_mul (Finite sk mk) (Finite sv mv) = Finite (sk \<noteq> sv) x
        \<and> convert c a b (Finite (sk \<noteq> sv) x) = Inr (Finite (sk \<noteq> sv) y)
        \<and> convert c a b (Finite sv mv) = Inr (Finite sv w)
        \<and> float_mul (Finite sk mk) (Finite sv w) = Finite (sk \<noteq> sv) z
        \<and> \<bar>y - z\<bar> \<le> (mk * mv * ma / mb) / 2 ^ 49"
    if rng: "pow2 (- 450) \<le> mk" "mk \<le> pow2 450" "pow2 (- 450) \<le> mv" "mv \<le> pow2 450"
    for sk mk sv mv
  proof -
    obtain fa fb x y w z where r: "exact_factor c a = Inr fa" "exact_factor c b = Inr fb"
        "float_mul (Finite sk mk) (Finite sv mv) = Finite (sk \<noteq> sv) x"
        "convert c a b (Finite (sk \<noteq> sv) x) = Inr (Finite (sk \<noteq> sv) y)"
        "convert c a b (Finite sv mv) = Inr (Finite sv w)"
        "float_mul (Finite sk mk) (Finite sv w) = Finite (sk \<noteq> sv) z"
        "\<bar>y - z\<bar> \<le> (mk * mv * fa / fb) / 2 ^ 49"
      using linearity_tolerance [OF assms rng, of sk sv] by blast
    have "fa = ma" "fb = mb" using r(1,2) m(3,4) by simp_all
    with r(3-7) show ?thesis by blast
  qed
  from m s t show ?thesis by blast
qed

lemma linearity_1: "round_float s (17293822569102705 / 576460752303423488) = Finite s (1080863910568919 / 36028797018963968)"
  by (rule round_float_tieI [where e = "- 6" and n = 8646911284551352]) (simp_all add: pow2_def)

lemma linearity_2: "round_float s (4323455642275676 / 3660525777126739) = Finite s (5319212158311609 / 4503599627370496)"
  by (rule round_float_normalI [where e = "0" and n = 5319212158311609]) (simp_all add: pow2_def)

lemma linearity_3: "round_float s (5764607523034235 / 576460752303423488) = Finite s (5764607523034235 / 576460752303423488)"
  by (rule round_float_normalI [where e = "- 7" and n = 5764607523034235]) (simp_all add: pow2_def)

lemma linearity_4: "round_float s (5764607523034235 / 14642103108506956) = Finite s (7092282877748813 / 18014398509481984)"
  by (rule round_float_normalI [where e = "- 2" and n = 7092282877748813]) (simp_all add: pow2_def)

lemma linearity_5: "round_float s (21276848633246439 / 18014398509481984) = Finite s (2659606079155805 / 2251799813685248)"
  by (rule round_float_normalI [where e = "0" and n = 5319212158311610]) (simp_all add: pow2_def)

lemma centimeters_to_inches:
  "convert ''Length'' ''Centimeters'' ''Inches'' v =
     Inr (float_div (float_mul v (Finite False (5764607523034235 / 576460752303423488)))
            (Finite False (3660525777126739 / 144115188075855872)))"
  by (simp add: convert_def convert_on_def bind_def getitem_def CONVERSIONS_def py_mul_def
      py_truediv_def as_float_def float_lit_def round_0_01 round_0_0254 float_truediv_def is_zero_def)

lemma three_and_one:
  "float_lit 3 = Finite False 3" "float_lit 1 = Finite False 1" "float_lit 7 = Finite False 7"
  "is_finite (Finite False 3)" "is_finite (Finite False 1)" "is_finite (Finite False 7)"
  by (simp_all add: float_lit_def is_finite_def round_float_numeral)

text \<open>
  C1 as stated fails in floats: from centimetres to inches, converting \<open>3 * 1\<close> and
  multiplying the conversion of 1 by 3 give \<^verbatim>\<open>1.1811023622047243\<close> and
  \<^verbatim>\<open>1.1811023622047245\<close>.
\<close>

theorem linearity_counterexample:
  "is_finite (float_lit 3) \<and> is_finite (float_lit 1)
   \<and> float_mul (float_lit 3) (float_lit 1) = float_lit 3
   \<and> convert ''Length'' ''Centimeters'' ''Inches'' (float_mul (float_lit 3) (float_lit 1))
       = Inr (Finite False (5319212158311609 / 4503599627370496))
   \<and> convert ''Length'' ''Centimeters'' ''Inches'' (float_lit 1)
       = Inr (Finite False (7092282877748813 / 18014398509481984))
   \<and> float_mul (float_lit 3) (Finite False (7092282877748813 / 18014398509481984))
       = Finite False (2659606079155805 / 2251799813685248)
   \<and> \<not> float_eq (Finite False (5319212158311609 / 4503599627370496))
                  (Finite False (2659606079155805 / 2251799813685248))"
  by (simp add: centimeters_to_inches three_and_one round_float_numeral signed_def
      linearity_1 linearity_2 linearity_3 linearity_4 linearity_5)

theorem linear_conversion_witness:
  "''Length'' \<noteq> ''Temperature''
   \<and> has_unit ''Length'' ''Kilometers'' \<and> has_unit ''Length'' ''Meters''
   \<and> convert ''Length'' ''Kilometers'' ''Meters'' (float_lit 2)
       = Inr (float_div (float_mul (float_lit 2) (Finite False 1000)) (Finite False 1))
   \<and> convert_exact ''Length'' ''Kilometers'' ''Meters'' (3 * 2) = Inr (3 * (2 * 1000 / 1))
   \<and> pow2 (- 450) \<le> 3 \<and> 3 \<le> pow2 450 \<and> pow2 (- 450) \<le> 2 \<and> 2 \<le> pow2 450
   \<and> (\<exists>x y w z.
         float_mul (Finite False 3) (Finite True 2) = Finite (False \<noteq> True) x
         \<and> convert ''Length'' ''Kilometers'' ''Meters'' (Finite (False \<noteq> True) x)
             = Inr (Finite (False \<noteq> True) y)
         \<and> convert ''Length'' ''Kilometers'' ''Meters'' (Finite True 2) = Inr (Finite True w)
         \<and> float_mul (Finite False 3) (Finite True w) = Finite (False \<noteq> True) z
         \<and> \<bar>y - z\<bar> \<le> (3 * 2 * 1000 / 1) / 2 ^ 49)"
proof -
  have h: "''Length'' \<noteq> ''Temperature''" "has_unit ''Length'' ''Kilometers''"
      "has_unit ''Length'' ''Meters''"
    by (simp_all add: has_unit_length)
  have x: "exact_factor ''Length'' ''Kilometers'' = Inr 1000" "exact_factor ''Length'' ''Meters'' = Inr 1"
    by (simp_all add: exact_factor_def getitem_def CONVERSIONS_def bind_def exact_of_def)
  have p: "pow2 (- 450) \<le> 3" "3 \<le> pow2 450" "pow2 (- 450) \<le> 2" "2 \<le> pow2 450"
    by (simp_all add: pow2_def)
  obtain fa fb xa xb where r: "exact_factor ''Length'' ''Kilometers'' = Inr xa"
      "exact_factor ''Length'' ''Meters'' = Inr xb" "fa = Finite False xa" "fb = Finite False xb"
      "\<forall>v. convert ''Length'' ''Kilometers'' ''Meters'' v = Inr (float_div (float_mul v fa) fb)"
      "\<forall>k q. convert_exact ''Length'' ''Kilometers'' ''Meters'' (k * q) = Inr (k * (q * xa / xb))"
      "\<forall>sk mk sv mv.
         pow2 (- 450) \<le> mk \<longrightarrow> mk \<le> pow2 450 \<longrightarrow> pow2 (- 450) \<le> mv \<longrightarrow> mv \<le> pow2 450 \<longrightarrow>
         (\<exists>x y w z.
            float_mul (Finite sk mk) (Finite sv mv) = Finite (sk \<noteq> sv) x
            \<and> convert ''Length'' ''Kilometers'' ''Meters'' (Finite (sk \<noteq> sv) x)
                = Inr (Finite (sk \<noteq> sv) y)
            \<and> convert ''Length'' ''Kilometers'' ''Meters'' (Finite sv mv) = Inr (Finite sv w)
            \<and> float_mul (Finite sk mk) (Finite sv w) = Finite (sk \<noteq> sv) z
            \<and> \<bar>y - z\<bar> \<le> (mk * mv * xa / xb) / 2 ^ 49)"
    using linear_conversion [OF h] by blast
  have e: "xa = 1000" "xb = 1" using r(1,2) x by simp_all
  have 1: "convert ''Length'' ''Kilometers'' ''Meters'' (float_lit 2)
       = Inr (float_div (float_mul (float_lit 2) (Finite False 1000)) (Finite False 1))"
    using r(3,4,5) e by simp
  have 2: "convert_exact ''Length'' ''Kilometers'' ''Meters'' (3 * 2) = Inr (3 * (2 * 1000 / 1))"
    using r(6) e by blast
  have 3: "\<exists>x y w z.
         float_mul (Finite False 3) (Finite True 2) = Finite (False \<noteq> True) x
         \<and> convert ''Length'' ''Kilometers'' ''Meters'' (Finite (False \<noteq> True) x)
             = Inr (Finite (False \<noteq> True) y)
         \<and> convert ''Length'' ''Kilometers'' ''Meters'' (Finite True 2) = Inr (Finite True w)
         \<and> float_mul (Finite False 3) (Finite True w) = Finite (False \<noteq> True) z
         \<and> \<bar>y - z\<bar> \<le> (3 * 2 * xa / xb) / 2 ^ 49"
    using r(7) p by blast
  from h 1 2 p 3 show ?thesis unfolding e by (intro conjI)
qed

section \<open>Temperature in floats\<close>

lemma range_1000: "100 * pow2 1000 + 100000 < pow2 1023" "1 \<le> pow2 1000"
  by (simp_all add: pow2_def)

lemma celsius_zero_bounds: "0 \<le> celsius_zero" "celsius_zero \<le> 274"
  by (simp_all add: celsius_zero_def)

lemma fahrenheit_to_celsius_tracked:
  assumes m: "0 \<le> m" and x: "\<bar>signed s m - X\<bar> \<le> E" and A: "\<bar>X\<bar> \<le> A"
    and rng: "A + E \<le> pow2 1000"
  shows "\<exists>s' c. float_div (float_mul (float_sub (Finite s m) (Finite False 32)) (Finite False 5))
                   (Finite False 9) = Finite s' c
           \<and> 0 \<le> c \<and> \<bar>signed s' c - (X - 32) * 5 / 9\<bar> \<le> 2 * E + (A + E + 300) / 2 ^ 50"
proof -
  have E0: "0 \<le> E" using x by linarith
  have A0: "0 \<le> A" using A by linarith
  note R = range_1000
  define E1 where "E1 = E + (A + E + 32 + 1) * unit_roundoff"
  define B1 where "B1 = A + 32 + E1"
  define E2 where "E2 = E1 * 5 + (B1 * 5 + 1) * unit_roundoff"
  define B2 where "B2 = (A + 32) * 5 + E2"
  define E3 where "E3 = E2 / 9 + (B2 / 9 + 1) * unit_roundoff"
  have "\<bar>X\<bar> + E \<le> A + E" using A by simp
  moreover have "A + E + 32 < pow2 1023" using rng R by linarith
  ultimately obtain s1 a1 where 1: "float_sub (Finite s m) (Finite False 32) = Finite s1 a1" "0 \<le> a1"
      "\<bar>signed s1 a1 - (X - 32)\<bar> \<le> E1"
    using step_sub [OF x, of "A + E" 32] unfolding E1_def by auto
  have "\<bar>X - 32\<bar> + E1 \<le> B1" using A by (simp add: B1_def)
  moreover have "B1 * 5 < pow2 1023"
    using rng R E0 A0 unfolding B1_def E1_def unit_roundoff_def by (simp add: field_simps)
  ultimately obtain a2 where 2: "float_mul (Finite s1 a1) (Finite False 5) = Finite s1 a2" "0 \<le> a2"
      "\<bar>signed s1 a2 - (X - 32) * 5\<bar> \<le> E2"
    using step_mul [OF 1(2,3), of 5 B1] unfolding E2_def by auto
  have "\<bar>(X - 32) * 5\<bar> + E2 \<le> B2" using A by (simp add: B2_def abs_mult)
  moreover have "B2 / 9 < pow2 1023"
    using rng R E0 A0 unfolding B2_def E2_def B1_def E1_def unit_roundoff_def by (simp add: field_simps)
  ultimately obtain a3 where 3: "float_div (Finite s1 a2) (Finite False 9) = Finite s1 a3" "0 \<le> a3"
      "\<bar>signed s1 a3 - (X - 32) * 5 / 9\<bar> \<le> E3"
    using step_div [OF 2(2,3), of 9 B2] unfolding E3_def by auto
  have "E3 \<le> 2 * E + (A + E + 300) / 2 ^ 50"
    using E0 A0 unfolding E3_def B2_def E2_def B1_def E1_def unit_roundoff_def by (simp add: field_simps)
  then have "\<bar>signed s1 a3 - (X - 32) * 5 / 9\<bar> \<le> 2 * E + (A + E + 300) / 2 ^ 50"
    using 3(3) by linarith
  then show ?thesis using 1(1) 2(1) 3(1,2) by simp
qed

lemma celsius_to_fahrenheit_tracked:
  assumes m: "0 \<le> m" and x: "\<bar>signed s m - X\<bar> \<le> E" and A: "\<bar>X\<bar> \<le> A"
    and rng: "A + E \<le> pow2 1000"
  shows "\<exists>s' c. float_add (float_div (float_mul (Finite s m) (Finite False 9)) (Finite False 5))
                   (Finite False 32) = Finite s' c
           \<and> 0 \<le> c \<and> \<bar>signed s' c - (X * 9 / 5 + 32)\<bar> \<le> 2 * E + (A + E + 300) / 2 ^ 50"
proof -
  have E0: "0 \<le> E" using x by linarith
  have A0: "0 \<le> A" using A by linarith
  note R = range_1000
  define B0 where "B0 = A + E"
  define E1 where "E1 = E * 9 + (B0 * 9 + 1) * unit_roundoff"
  define B1 where "B1 = A * 9 + E1"
  define E2 where "E2 = E1 / 5 + (B1 / 5 + 1) * unit_roundoff"
  define B2 where "B2 = A * 9 / 5 + E2"
  define E3 where "E3 = E2 + (B2 + 32 + 1) * unit_roundoff"
  have "\<bar>X\<bar> + E \<le> B0" using A by (simp add: B0_def)
  moreover have "B0 * 9 < pow2 1023" using rng R unfolding B0_def by (simp add: field_simps)
  ultimately obtain a1 where 1: "float_mul (Finite s m) (Finite False 9) = Finite s a1" "0 \<le> a1"
      "\<bar>signed s a1 - X * 9\<bar> \<le> E1"
    using step_mul [OF m x, of 9 B0] unfolding E1_def by auto
  have "\<bar>X * 9\<bar> + E1 \<le> B1" using A by (simp add: B1_def abs_mult)
  moreover have "B1 / 5 < pow2 1023"
    using rng R E0 A0 unfolding B1_def E1_def B0_def unit_roundoff_def by (simp add: field_simps)
  ultimately obtain a2 where 2: "float_div (Finite s a1) (Finite False 5) = Finite s a2" "0 \<le> a2"
      "\<bar>signed s a2 - X * 9 / 5\<bar> \<le> E2"
    using step_div [OF 1(2,3), of 5 B1] unfolding E2_def by auto
  have "\<bar>X * 9 / 5\<bar> + E2 \<le> B2" using A by (simp add: B2_def abs_mult)
  moreover have "B2 + 32 < pow2 1023"
    using rng R E0 A0 unfolding B2_def E2_def B1_def E1_def B0_def unit_roundoff_def by (simp add: field_simps)
  ultimately obtain s3 a3 where 3: "float_add (Finite s a2) (Finite False 32) = Finite s3 a3" "0 \<le> a3"
      "\<bar>signed s3 a3 - (X * 9 / 5 + 32)\<bar> \<le> E3"
    using step_add [OF 2(3), of B2 32] unfolding E3_def by auto
  have "E3 \<le> 2 * E + (A + E + 300) / 2 ^ 50"
    using E0 A0 unfolding E3_def B2_def E2_def B1_def E1_def B0_def unit_roundoff_def by (simp add: field_simps)
  then have "\<bar>signed s3 a3 - (X * 9 / 5 + 32)\<bar> \<le> 2 * E + (A + E + 300) / 2 ^ 50"
    using 3(3) by linarith
  then show ?thesis using 1(1) 2(1) 3(1,2) by simp
qed

lemma kelvin_to_celsius_tracked:
  assumes x: "\<bar>signed s m - X\<bar> \<le> E" and A: "\<bar>X\<bar> \<le> A" and rng: "A + E \<le> pow2 1000"
  shows "\<exists>s' c. float_sub (Finite s m) (Finite False celsius_zero) = Finite s' c
           \<and> 0 \<le> c \<and> \<bar>signed s' c - (X - celsius_zero)\<bar> \<le> 2 * E + (A + E + 300) / 2 ^ 50"
proof -
  have E0: "0 \<le> E" using x by linarith
  have A0: "0 \<le> A" using A by linarith
  note R = range_1000 and K = celsius_zero_bounds
  have "\<bar>X\<bar> + E \<le> A + E" using A by simp
  moreover have "A + E + celsius_zero < pow2 1023" using rng R K by linarith
  ultimately obtain s1 a1 where 1: "float_sub (Finite s m) (Finite False celsius_zero) = Finite s1 a1"
      "0 \<le> a1" "\<bar>signed s1 a1 - (X - celsius_zero)\<bar> \<le> E + (A + E + celsius_zero + 1) * unit_roundoff"
    using step_sub [OF x, of "A + E" celsius_zero] K(1) by auto
  have "E + (A + E + celsius_zero + 1) * unit_roundoff \<le> 2 * E + (A + E + 300) / 2 ^ 50"
    using E0 A0 K unfolding unit_roundoff_def by (simp add: field_simps)
  then show ?thesis using 1 by (meson order_trans)
qed

lemma celsius_to_kelvin_tracked:
  assumes x: "\<bar>signed s m - X\<bar> \<le> E" and A: "\<bar>X\<bar> \<le> A" and rng: "A + E \<le> pow2 1000"
  shows "\<exists>s' c. float_add (Finite s m) (Finite False celsius_zero) = Finite s' c
           \<and> 0 \<le> c \<and> \<bar>signed s' c - (X + celsius_zero)\<bar> \<le> 2 * E + (A + E + 300) / 2 ^ 50"
proof -
  have E0: "0 \<le> E" using x by linarith
  have A0: "0 \<le> A" using A by linarith
  note R = range_1000 and K = celsius_zero_bounds
  have "\<bar>X\<bar> + E \<le> A + E" using A by simp
  moreover have "A + E + celsius_zero < pow2 1023" using rng R K by linarith
  ultimately obtain s1 a1 where 1: "float_add (Finite s m) (Finite False celsius_zero) = Finite s1 a1"
      "0 \<le> a1" "\<bar>signed s1 a1 - (X + celsius_zero)\<bar> \<le> E + (A + E + celsius_zero + 1) * unit_roundoff"
    using step_add [OF x, of "A + E" celsius_zero] K(1) by auto
  have "E + (A + E + celsius_zero + 1) * unit_roundoff \<le> 2 * E + (A + E + 300) / 2 ^ 50"
    using E0 A0 K unfolding unit_roundoff_def by (simp add: field_simps)
  then show ?thesis using 1 by (meson order_trans)
qed

lemma temperature_lits:
  "float_lit 32 = Finite False 32" "float_lit 5 = Finite False 5" "float_lit 9 = Finite False 9"
  "float_lit 273.15 = Finite False celsius_zero"
  by (simp_all add: float_lit_def round_float_numeral round_273_15 celsius_zero_def)

lemma convert_temperature_floats:
  "convert ''Temperature'' a b v =
     Inr (let celsius = (if a = ''Fahrenheit''
                         then float_div (float_mul (float_sub v (Finite False 32)) (Finite False 5))
                                (Finite False 9)
                         else if a = ''Kelvin'' then float_sub v (Finite False celsius_zero) else v)
          in if b = ''Fahrenheit''
             then float_add (float_div (float_mul celsius (Finite False 9)) (Finite False 5))
                    (Finite False 32)
             else if b = ''Kelvin'' then float_add celsius (Finite False celsius_zero) else celsius)"
  unfolding convert_def convert_on_def convert_temperature_steps temperature_lits by simp

lemma to_celsius_tracked:
  assumes m: "0 \<le> m" and x: "\<bar>signed s m - X\<bar> \<le> E" and A: "\<bar>X\<bar> \<le> A"
    and rng: "A + E \<le> pow2 1000"
  shows "\<exists>s' c. (if a = ''Fahrenheit''
                  then float_div (float_mul (float_sub (Finite s m) (Finite False 32)) (Finite False 5))
                         (Finite False 9)
                  else if a = ''Kelvin'' then float_sub (Finite s m) (Finite False celsius_zero)
                  else Finite s m) = Finite s' c
           \<and> 0 \<le> c \<and> \<bar>signed s' c - to_celsius_exact a X\<bar> \<le> 2 * E + (A + E + 300) / 2 ^ 50"
proof -
  have E0: "0 \<le> E" using x by linarith
  have A0: "0 \<le> A" using A by linarith
  consider "a = ''Fahrenheit''" | "a \<noteq> ''Fahrenheit''" "a = ''Kelvin''"
    | "a \<noteq> ''Fahrenheit''" "a \<noteq> ''Kelvin''" by blast
  then show ?thesis
  proof cases
    case 1
    then show ?thesis
      using fahrenheit_to_celsius_tracked [OF m x A rng] by (simp add: to_celsius_exact_def)
  next
    case 2
    then show ?thesis
      using kelvin_to_celsius_tracked [OF x A rng] by (simp add: to_celsius_exact_def)
  next
    case 3
    have "E \<le> 2 * E + (A + E + 300) / 2 ^ 50" using E0 A0 by simp
    then have "\<bar>signed s m - X\<bar> \<le> 2 * E + (A + E + 300) / 2 ^ 50" using x by linarith
    then show ?thesis using 3 m by (simp add: to_celsius_exact_def)
  qed
qed

lemma from_celsius_tracked:
  assumes m: "0 \<le> m" and x: "\<bar>signed s m - X\<bar> \<le> E" and A: "\<bar>X\<bar> \<le> A"
    and rng: "A + E \<le> pow2 1000"
  shows "\<exists>s' c. (if b = ''Fahrenheit''
                  then float_add (float_div (float_mul (Finite s m) (Finite False 9)) (Finite False 5))
                         (Finite False 32)
                  else if b = ''Kelvin'' then float_add (Finite s m) (Finite False celsius_zero)
                  else Finite s m) = Finite s' c
           \<and> 0 \<le> c \<and> \<bar>signed s' c - from_celsius_exact b X\<bar> \<le> 2 * E + (A + E + 300) / 2 ^ 50"
proof -
  have E0: "0 \<le> E" using x by linarith
  have A0: "0 \<le> A" using A by linarith
  consider "b = ''Fahrenheit''" | "b \<noteq> ''Fahrenheit''" "b = ''Kelvin''"
    | "b \<noteq> ''Fahrenheit''" "b \<noteq> ''Kelvin''" by blast
  then show ?thesis
  proof cases
    case 1
    then show ?thesis
      using celsius_to_fahrenheit_tracked [OF m x A rng] by (simp add: from_celsius_exact_def)
  next
    case 2
    then show ?thesis
      using celsius_to_kelvin_tracked [OF x A rng] by (simp add: from_celsius_exact_def)
  next
    case 3
    have "E \<le> 2 * E + (A + E + 300) / 2 ^ 50" using E0 A0 by simp
    then have "\<bar>signed s m - X\<bar> \<le> 2 * E + (A + E + 300) / 2 ^ 50" using x by linarith
    then show ?thesis using 3 m by (simp add: from_celsius_exact_def)
  qed
qed

lemma to_celsius_exact_bound: "\<bar>to_celsius_exact a X\<bar> \<le> \<bar>X\<bar> + 274"
  using celsius_zero_bounds by (simp add: to_celsius_exact_def) linarith

lemma from_celsius_exact_bound: "\<bar>from_celsius_exact b X\<bar> \<le> 2 * \<bar>X\<bar> + 274"
  using celsius_zero_bounds by (simp add: from_celsius_exact_def) linarith

lemma celsius_inverse:
  "from_celsius_exact a (to_celsius_exact a x) = x"
  "to_celsius_exact a (from_celsius_exact a x) = x"
  by (simp_all add: from_celsius_exact_def to_celsius_exact_def field_simps)

lemma range_900: "100 * pow2 900 + 100000 \<le> pow2 1000" "0 \<le> pow2 900"
  by (simp_all add: pow2_def)

lemma conversion_tracked:
  assumes m: "0 \<le> m" and x: "\<bar>signed s m - X\<bar> \<le> E" and A: "\<bar>X\<bar> \<le> A"
    and rng: "4 * (A + E) + 2000 \<le> pow2 1000"
  shows "\<exists>s' w. convert ''Temperature'' a b (Finite s m) = Inr (Finite s' w) \<and> 0 \<le> w
           \<and> \<bar>signed s' w - from_celsius_exact b (to_celsius_exact a X)\<bar>
               \<le> 4 * E + (A + E + 300) / 2 ^ 47"
proof -
  have E0: "0 \<le> E" using x by linarith
  have A0: "0 \<le> A" using A by linarith
  have r1: "A + E \<le> pow2 1000" using rng A0 E0 by (simp add: algebra_simps)
  define E1 where "E1 = 2 * E + (A + E + 300) / 2 ^ 50"
  obtain s1 c where c: "(if a = ''Fahrenheit''
        then float_div (float_mul (float_sub (Finite s m) (Finite False 32)) (Finite False 5))
               (Finite False 9)
        else if a = ''Kelvin'' then float_sub (Finite s m) (Finite False celsius_zero)
        else Finite s m) = Finite s1 c" "0 \<le> c"
      "\<bar>signed s1 c - to_celsius_exact a X\<bar> \<le> E1"
    using to_celsius_tracked [OF m x A r1, of a] unfolding E1_def by blast
  have A1: "\<bar>to_celsius_exact a X\<bar> \<le> A + 274"
    using to_celsius_exact_bound [of a X] A by linarith
  have r2: "A + 274 + E1 \<le> pow2 1000"
    using rng A0 E0 unfolding E1_def by (simp add: field_simps)
  obtain s2 w where w: "(if b = ''Fahrenheit''
        then float_add (float_div (float_mul (Finite s1 c) (Finite False 9)) (Finite False 5))
               (Finite False 32)
        else if b = ''Kelvin'' then float_add (Finite s1 c) (Finite False celsius_zero)
        else Finite s1 c) = Finite s2 w" "0 \<le> w"
      "\<bar>signed s2 w - from_celsius_exact b (to_celsius_exact a X)\<bar>
         \<le> 2 * E1 + (A + 274 + E1 + 300) / 2 ^ 50"
    using from_celsius_tracked [OF c(2,3) A1 r2, of b] by blast
  have "2 * E1 + (A + 274 + E1 + 300) / 2 ^ 50 \<le> 4 * E + (A + E + 300) / 2 ^ 47"
    using A0 E0 unfolding E1_def by (simp add: field_simps)
  then have e: "\<bar>signed s2 w - from_celsius_exact b (to_celsius_exact a X)\<bar>
      \<le> 4 * E + (A + E + 300) / 2 ^ 47"
    using w(3) by linarith
  have "convert ''Temperature'' a b (Finite s m) = Inr (Finite s2 w)"
    unfolding convert_temperature_floats Let_def c(1) w(1) ..
  with w(2) e show ?thesis by blast
qed

lemma temperature_self_tolerance:
  assumes "0 \<le> m" and "m \<le> pow2 900"
  shows "\<exists>s' r. convert ''Temperature'' u u (Finite s m) = Inr (Finite s' r) \<and> 0 \<le> r
           \<and> \<bar>signed s' r - signed s m\<bar> \<le> (m + 300) / 2 ^ 47"
proof -
  have x: "\<bar>signed s m - signed s m\<bar> \<le> 0" by simp
  have A: "\<bar>signed s m\<bar> \<le> m" using assms(1) by (simp add: abs_signed)
  have rng: "4 * (m + 0) + 2000 \<le> pow2 1000" using assms range_900 by simp
  obtain s' w where w: "convert ''Temperature'' u u (Finite s m) = Inr (Finite s' w)" "0 \<le> w"
      "\<bar>signed s' w - from_celsius_exact u (to_celsius_exact u (signed s m))\<bar>
         \<le> 4 * 0 + (m + 0 + 300) / 2 ^ 47"
    using conversion_tracked [OF assms(1) x A rng, of u u] by blast
  then show ?thesis by (auto simp: celsius_inverse)
qed

lemma temperature_round_trip_tolerance:
  assumes "0 \<le> m" and "m \<le> pow2 900"
  shows "\<exists>sw w sr r. convert ''Temperature'' a b (Finite s m) = Inr (Finite sw w)
           \<and> convert ''Temperature'' b a (Finite sw w) = Inr (Finite sr r) \<and> 0 \<le> r
           \<and> \<bar>signed sr r - signed s m\<bar> \<le> (m + 300) / 2 ^ 44"
proof -
  define x where "x = signed s m"
  define W where "W = from_celsius_exact b (to_celsius_exact a x)"
  define E1 where "E1 = (m + 300) / 2 ^ 47"
  have x0: "\<bar>signed s m - x\<bar> \<le> 0" by (simp add: x_def)
  have A: "\<bar>x\<bar> \<le> m" using assms(1) by (simp add: abs_signed x_def)
  have rng: "4 * (m + 0) + 2000 \<le> pow2 1000" using assms range_900 by simp
  obtain sw w where w: "convert ''Temperature'' a b (Finite s m) = Inr (Finite sw w)" "0 \<le> w"
      "\<bar>signed sw w - W\<bar> \<le> E1"
    using conversion_tracked [OF assms(1) x0 A rng, of a b] unfolding W_def E1_def by auto
  have "\<bar>to_celsius_exact a x\<bar> \<le> m + 274" using to_celsius_exact_bound [of a x] A by linarith
  then have AW: "\<bar>W\<bar> \<le> 2 * m + 822"
    using from_celsius_exact_bound [of b "to_celsius_exact a x"] unfolding W_def by linarith
  have rng2: "4 * (2 * m + 822 + E1) + 2000 \<le> pow2 1000"
    using assms range_900 unfolding E1_def by (simp add: field_simps)
  obtain sr r where r: "convert ''Temperature'' b a (Finite sw w) = Inr (Finite sr r)" "0 \<le> r"
      "\<bar>signed sr r - from_celsius_exact a (to_celsius_exact b W)\<bar>
         \<le> 4 * E1 + (2 * m + 822 + E1 + 300) / 2 ^ 47"
    using conversion_tracked [OF w(2,3) AW rng2, of b a] by blast
  have inv: "from_celsius_exact a (to_celsius_exact b W) = x"
    by (simp add: W_def celsius_inverse)
  have "4 * E1 + (2 * m + 822 + E1 + 300) / 2 ^ 47 \<le> (m + 300) / 2 ^ 44"
    using assms(1) unfolding E1_def by (simp add: field_simps)
  then have "\<bar>signed sr r - x\<bar> \<le> (m + 300) / 2 ^ 44" using r(3) unfolding inv by linarith
  with w(1) r(1,2) show ?thesis unfolding x_def by blast
qed

section \<open>Converting a unit to itself, and there and back\<close>

lemma kelvin_offset:
  "exact_of (PyFloat (float_lit 273.15)) = Inr (2402652809016115 / 8796093022208)"
  by (simp add: exact_of_def float_lit_def round_273_15 signed_def)

lemma temperature_exact:
  "convert_exact ''Temperature'' f t q =
     Inr (let celsius = (if f = ''Fahrenheit'' then (q - 32) * 5 / 9
                         else if f = ''Kelvin'' then q - 2402652809016115 / 8796093022208
                         else q)
          in if t = ''Fahrenheit'' then celsius * 9 / 5 + 32
             else if t = ''Kelvin'' then celsius + 2402652809016115 / 8796093022208
             else celsius)"
  unfolding convert_exact_def convert_temperature_exact_def kelvin_offset
  by (simp add: bind_def Let_def)

lemma temperature_units:
  "has_unit ''Temperature'' u \<longleftrightarrow> u = ''Celsius'' \<or> u = ''Fahrenheit'' \<or> u = ''Kelvin''"
  by (auto simp: has_unit_def units_temperature)

lemma round_trip_any:
  assumes "has_unit c a" and "has_unit c b"
  shows "\<exists>r. convert_exact c a b q = Inr r \<and> convert_exact c b a r = Inr q"
proof (cases "c = ''Temperature''")
  case True
  have a: "a = ''Celsius'' \<or> a = ''Fahrenheit'' \<or> a = ''Kelvin''"
    using assms(1) True by (simp add: temperature_units)
  have b: "b = ''Celsius'' \<or> b = ''Fahrenheit'' \<or> b = ''Kelvin''"
    using assms(2) True by (simp add: temperature_units)
  define E where "E = (\<lambda>f t (q::rat).
     let celsius = (if f = ''Fahrenheit'' then (q - 32) * 5 / 9
                    else if f = ''Kelvin'' then q - 2402652809016115 / 8796093022208
                    else q)
     in if t = ''Fahrenheit'' then celsius * 9 / 5 + 32
        else if t = ''Kelvin'' then celsius + 2402652809016115 / 8796093022208
        else celsius)"
  have conv: "convert_exact ''Temperature'' f t x = Inr (E f t x)" for f t x
    by (simp add: temperature_exact E_def)
  have "E b a (E a b q) = q"
    using a b by (elim disjE) (simp_all add: E_def Let_def field_simps)
  then show ?thesis unfolding True conv by simp
next
  case False
  obtain ma mb where m: "0 < ma" "0 < mb" "\<forall>q. convert_exact c a b q = Inr (q * ma / mb)"
    using linear_pair [OF False assms] by blast
  obtain ma' mb' where m': "0 < ma'" "0 < mb'" "\<forall>q. convert_exact c b a q = Inr (q * mb' / ma')"
      "exact_factor c b = Inr mb'" "exact_factor c a = Inr ma'"
    using linear_pair [OF False assms(2,1)] by blast
  obtain ma2 mb2 where m2: "exact_factor c a = Inr ma2" "exact_factor c b = Inr mb2"
      "0 < ma2" "0 < mb2" "\<forall>q. convert_exact c a b q = Inr (q * ma2 / mb2)"
    using linear_pair [OF False assms] by blast
  have e: "ma' = ma2" "mb' = mb2" using m'(4,5) m2(1,2) by simp_all
  have "convert_exact c b a (q * ma2 / mb2) = Inr q"
    using m'(3) m2(3,4) by (simp add: e)
  with m2(5) show ?thesis by blast
qed

text \<open>
  C4, as amended. Computed exactly, converting from \<open>a\<close> to \<open>b\<close> and back returns the
  value, for every category and every two units of it. In floats, for a category other
  than Temperature and a value that is zero or of magnitude between \<open>2\<^sup>-\<^sup>9\<^sup>0\<^sup>0\<close> and \<open>2\<^sup>9\<^sup>0\<^sup>0\<close>,
  both conversions are finite, keep the sign, and the result differs from the value by at
  most \<open>2\<^sup>-\<^sup>5\<^sup>0\<close> of it. For Temperature and a value of magnitude \<open>m\<close> at most \<open>2\<^sup>9\<^sup>0\<^sup>0\<close>, both
  conversions are finite and the result differs from the value by at most
  \<open>(m + 300) / 2\<^sup>4\<^sup>4\<close>.
\<close>

theorem round_trip:
  assumes "has_unit c a" and "has_unit c b"
  shows "(\<forall>q. \<exists>r. convert_exact c a b q = Inr r \<and> convert_exact c b a r = Inr q)
         \<and> (c \<noteq> ''Temperature'' \<longrightarrow>
              (\<forall>s m. m = 0 \<or> pow2 (- 900) \<le> m \<and> m \<le> pow2 900 \<longrightarrow>
                 (\<exists>w r. convert c a b (Finite s m) = Inr (Finite s w)
                        \<and> convert c b a (Finite s w) = Inr (Finite s r)
                        \<and> \<bar>r - m\<bar> \<le> m / 2 ^ 50)))
         \<and> (c = ''Temperature'' \<longrightarrow>
              (\<forall>s m. 0 \<le> m \<longrightarrow> m \<le> pow2 900 \<longrightarrow>
                 (\<exists>sw w sr r. convert c a b (Finite s m) = Inr (Finite sw w)
                        \<and> convert c b a (Finite sw w) = Inr (Finite sr r)
                        \<and> \<bar>signed sr r - signed s m\<bar> \<le> (m + 300) / 2 ^ 44)))"
proof -
  have t: "\<exists>sw w sr r. convert ''Temperature'' a b (Finite s m) = Inr (Finite sw w)
                        \<and> convert ''Temperature'' b a (Finite sw w) = Inr (Finite sr r)
                        \<and> \<bar>signed sr r - signed s m\<bar> \<le> (m + 300) / 2 ^ 44"
    if "0 \<le> m" "m \<le> pow2 900" for s m
    using temperature_round_trip_tolerance [OF that, of a b s] by blast
  show ?thesis
    using round_trip_any [OF assms] round_trip_tolerance [OF _ assms] t by blast
qed

lemma self_exact:
  assumes "has_unit c u"
  shows "convert_exact c u u q = Inr q"
proof (cases "c = ''Temperature''")
  case True
  have "u = ''Celsius'' \<or> u = ''Fahrenheit'' \<or> u = ''Kelvin''"
    using assms True by (simp add: temperature_units)
  then show ?thesis
    unfolding True temperature_exact by (elim disjE) (simp_all add: Let_def field_simps)
next
  case False
  obtain m where "0 < m" "\<forall>q. convert_exact c u u q = Inr (q * m / m)"
    using linear_pair [OF False assms assms] by auto
  then show ?thesis by simp
qed

lemma times_one:
  assumes "is_float64 v"
  shows "float_mul v (Finite False 1) = v" and "float_div v (Finite False 1) = v"
proof -
  show "float_mul v (Finite False 1) = v"
    using assms by (cases v) (simp_all add: is_float64_def is_finite_def)
  show "float_div v (Finite False 1) = v"
    using assms by (cases v) (simp_all add: is_float64_def is_finite_def)
qed

lemma self_base_unit:
  assumes "c \<noteq> ''Temperature''" and "factor c u = Inr (Finite False 1)" and "is_float64 v"
  shows "convert c u u v = Inr v"
proof -
  obtain d where d: "getitem CONVERSIONS c = Inr d"
    using assms(2) by (cases "getitem CONVERSIONS c") (simp_all add: factor_def bind_def)
  obtain x where x: "getitem d u = Inr x"
    using assms(2) d by (cases "getitem d u") (simp_all add: factor_def bind_def)
  have f: "as_float x = Inr (Finite False 1)" using assms(2) d x by (simp add: factor_def bind_def)
  have "convert c u u v = Inr (float_div (float_mul v (Finite False 1)) (Finite False 1))"
    using assms(1) d x f
    by (simp add: convert_def convert_on_def bind_def py_mul_def py_truediv_def float_truediv_def is_zero_def)
  then show ?thesis using times_one [OF assms(3)] by simp
qed

text \<open>
  C3, as amended. For every category and every unit of it, converting a value to the same
  unit returns the value when computed exactly. In floats the result is the value itself,
  bit for bit, for the base unit of a linear category (factor 1) and for Celsius; for
  every unit of a linear category and a value that is zero or of magnitude between
  \<open>2\<^sup>-\<^sup>9\<^sup>0\<^sup>0\<close> and \<open>2\<^sup>9\<^sup>0\<^sup>0\<close> the result is finite, keeps the sign, and differs from the value
  by at most \<open>2\<^sup>-\<^sup>5\<^sup>1\<close> of it; for every unit of Temperature and a value of magnitude \<open>m\<close>
  at most \<open>2\<^sup>9\<^sup>0\<^sup>0\<close> the result is finite and differs from the value by at most
  \<open>(m + 300) / 2\<^sup>4\<^sup>7\<close>.
\<close>

theorem self_conversion:
  assumes "has_unit c u"
  shows "(\<forall>q. convert_exact c u u q = Inr q)
         \<and> (c \<noteq> ''Temperature'' \<longrightarrow> factor c u = Inr (Finite False 1) \<longrightarrow>
              (\<forall>v. is_float64 v \<longrightarrow> convert c u u v = Inr v))
         \<and> (c = ''Temperature'' \<longrightarrow> u = ''Celsius'' \<longrightarrow> (\<forall>v. convert c u u v = Inr v))
         \<and> (c \<noteq> ''Temperature'' \<longrightarrow>
              (\<forall>s m. m = 0 \<or> pow2 (- 900) \<le> m \<and> m \<le> pow2 900 \<longrightarrow>
                 (\<exists>r. convert c u u (Finite s m) = Inr (Finite s r) \<and> \<bar>r - m\<bar> \<le> m / 2 ^ 51)))
         \<and> (c = ''Temperature'' \<longrightarrow>
              (\<forall>s m. 0 \<le> m \<longrightarrow> m \<le> pow2 900 \<longrightarrow>
                 (\<exists>s' r. convert c u u (Finite s m) = Inr (Finite s' r)
                        \<and> \<bar>signed s' r - signed s m\<bar> \<le> (m + 300) / 2 ^ 47)))"
proof -
  have 1: "convert ''Temperature'' ''Celsius'' ''Celsius'' v = Inr v" for v
    by (simp add: convert_def convert_on_def convert_temperature_def bind_def)
  have t: "\<exists>s' r. convert ''Temperature'' u u (Finite s m) = Inr (Finite s' r)
                        \<and> \<bar>signed s' r - signed s m\<bar> \<le> (m + 300) / 2 ^ 47"
    if "0 \<le> m" "m \<le> pow2 900" for s m
    using temperature_self_tolerance [OF that, of u s] by blast
  show ?thesis
    using 1 t self_exact [OF assms] self_base_unit self_tolerance [OF _ assms] by blast
qed

lemma identity_1: "round_float s (40352252661239645 / 576460752303423488) = Finite s (1261007895663739 / 18014398509481984)"
  by (rule round_float_normalI [where e = "- 4" and n = 5044031582654956]) (simp_all add: pow2_def)

lemma identity_2: "round_float s (40352252661239648 / 5764607523034235) = Finite s (7881299347898369 / 1125899906842624)"
  by (rule round_float_normalI [where e = "2" and n = 7881299347898369]) (simp_all add: pow2_def)

lemma centimeters_to_centimeters:
  "convert ''Length'' ''Centimeters'' ''Centimeters'' v =
     Inr (float_div (float_mul v (Finite False (5764607523034235 / 576460752303423488)))
            (Finite False (5764607523034235 / 576460752303423488)))"
  by (simp add: convert_def convert_on_def bind_def getitem_def CONVERSIONS_def py_mul_def
      py_truediv_def as_float_def float_lit_def round_0_01 float_truediv_def is_zero_def)

lemma small_lits:
  "float_lit 32 = Finite False 32" "float_lit 5 = Finite False 5" "float_lit 9 = Finite False 9"
  by (simp_all add: float_lit_def round_float_numeral)

lemma fahrenheit_to_fahrenheit_huge:
  "convert ''Temperature'' ''Fahrenheit'' ''Fahrenheit'' huge = Inr (Infinity False)"
  by (simp add: convert_def convert_on_def convert_temperature_steps small_lits
      huge_minus_32 huge_times_5)

text \<open>
  C3 as stated fails in floats. Seven centimetres in centimetres are
  \<^verbatim>\<open>7.000000000000001\<close>: the product \<^verbatim>\<open>7 * 0.01\<close> is rounded before it is divided. And
  \<open>2\<^sup>1\<^sup>0\<^sup>2\<^sup>3\<close> Fahrenheit in Fahrenheit are infinite: \<^verbatim>\<open>(value - 32) * 5\<close> overflows.
\<close>

theorem identity_counterexample:
  "has_unit ''Length'' ''Centimeters'' \<and> is_finite (float_lit 7)
   \<and> convert ''Length'' ''Centimeters'' ''Centimeters'' (float_lit 7)
       = Inr (Finite False (7881299347898369 / 1125899906842624))
   \<and> \<not> float_eq (Finite False (7881299347898369 / 1125899906842624)) (float_lit 7)
   \<and> has_unit ''Temperature'' ''Fahrenheit'' \<and> is_finite huge
   \<and> convert ''Temperature'' ''Fahrenheit'' ''Fahrenheit'' huge = Inr (Infinity False)
   \<and> \<not> float_eq (Infinity False) huge"
  by (simp add: has_unit_length temperature_units three_and_one centimeters_to_centimeters
      identity_1 identity_2 signed_def huge_finite fahrenheit_to_fahrenheit_huge)
     (simp add: huge_def)

lemma kilometers_meters:
  "convert ''Length'' ''Kilometers'' ''Meters'' v =
     Inr (float_div (float_mul v (Finite False 1000)) (Finite False 1))"
  "convert ''Length'' ''Meters'' ''Kilometers'' v =
     Inr (float_div (float_mul v (Finite False 1)) (Finite False 1000))"
  by (simp_all add: convert_def convert_on_def bind_def getitem_def CONVERSIONS_def py_mul_def
      py_truediv_def as_float_def float_of_int_def round_float_numeral float_truediv_def is_zero_def)

lemma fahrenheit_celsius_huge:
  "convert ''Temperature'' ''Fahrenheit'' ''Celsius'' huge = Inr (Infinity False)"
  "convert ''Temperature'' ''Celsius'' ''Fahrenheit'' (Infinity False) = Inr (Infinity False)"
  by (simp_all add: convert_def convert_on_def convert_temperature_steps small_lits
      huge_minus_32 huge_times_5)

text \<open>
  C4 as stated fails in floats: \<open>2\<^sup>1\<^sup>0\<^sup>2\<^sup>3\<close> kilometres are infinitely many metres, since
  the product with 1000 overflows, and infinitely many metres are infinitely many
  kilometres, not the value. In the same way \<open>2\<^sup>1\<^sup>0\<^sup>2\<^sup>3\<close> Fahrenheit are infinitely many
  degrees Celsius, and these are infinitely many Fahrenheit.
\<close>

theorem round_trip_counterexample:
  "has_unit ''Length'' ''Kilometers'' \<and> has_unit ''Length'' ''Meters'' \<and> is_finite huge
   \<and> convert ''Length'' ''Kilometers'' ''Meters'' huge = Inr (Infinity False)
   \<and> convert ''Length'' ''Meters'' ''Kilometers'' (Infinity False) = Inr (Infinity False)
   \<and> \<not> float_eq (Infinity False) huge
   \<and> has_unit ''Temperature'' ''Fahrenheit'' \<and> has_unit ''Temperature'' ''Celsius''
   \<and> convert ''Temperature'' ''Fahrenheit'' ''Celsius'' huge = Inr (Infinity False)
   \<and> convert ''Temperature'' ''Celsius'' ''Fahrenheit'' (Infinity False) = Inr (Infinity False)"
  by (simp add: has_unit_length temperature_units huge_finite kilometers_meters huge_times_1000
      fahrenheit_celsius_huge)
     (simp add: huge_def)

theorem self_conversion_witness:
  "has_unit ''Length'' ''Meters''
   \<and> convert_exact ''Length'' ''Meters'' ''Meters'' 5 = Inr 5
   \<and> convert ''Length'' ''Meters'' ''Meters'' (float_lit 7) = Inr (float_lit 7)
   \<and> pow2 (- 900) \<le> 7 \<and> 7 \<le> pow2 900
   \<and> (\<exists>r. convert ''Length'' ''Meters'' ''Meters'' (Finite True 7) = Inr (Finite True r)
            \<and> \<bar>r - 7\<bar> \<le> 7 / 2 ^ 51)
   \<and> has_unit ''Temperature'' ''Kelvin'' \<and> (0::rat) \<le> 300 \<and> 300 \<le> pow2 900
   \<and> (\<exists>s' r. convert ''Temperature'' ''Kelvin'' ''Kelvin'' (Finite False 300) = Inr (Finite s' r)
            \<and> \<bar>signed s' r - signed False 300\<bar> \<le> (300 + 300) / 2 ^ 47)
   \<and> has_unit ''Temperature'' ''Celsius''
   \<and> convert ''Temperature'' ''Celsius'' ''Celsius'' NaN = Inr NaN"
proof -
  have h: "has_unit ''Length'' ''Meters''" by (simp add: has_unit_length)
  have f: "factor ''Length'' ''Meters'' = Inr (Finite False 1)"
    by (simp add: factor_def getitem_def CONVERSIONS_def bind_def as_float_def float_of_int_def)
  have v: "is_float64 (float_lit 7)" by (simp add: is_float64_def three_and_one)
  have p: "pow2 (- 900) \<le> 7" "7 \<le> pow2 900" by (simp_all add: pow2_def)
  have n: "''Length'' \<noteq> ''Temperature''" by simp
  note t = self_conversion [OF h]
  have 1: "convert_exact ''Length'' ''Meters'' ''Meters'' 5 = Inr 5" using t by blast
  have 2: "convert ''Length'' ''Meters'' ''Meters'' (float_lit 7) = Inr (float_lit 7)"
    using t n f v by blast
  have 3: "\<exists>r. convert ''Length'' ''Meters'' ''Meters'' (Finite True 7) = Inr (Finite True r)
            \<and> \<bar>r - 7\<bar> \<le> 7 / 2 ^ 51"
    using t n p by blast
  have k: "has_unit ''Temperature'' ''Kelvin''" and c: "has_unit ''Temperature'' ''Celsius''"
    by (simp_all add: temperature_units)
  have q: "(0::rat) \<le> 300" "300 \<le> pow2 900" by (simp_all add: pow2_def)
  have 4: "\<exists>s' r. convert ''Temperature'' ''Kelvin'' ''Kelvin'' (Finite False 300) = Inr (Finite s' r)
            \<and> \<bar>signed s' r - signed False 300\<bar> \<le> (300 + 300) / 2 ^ 47"
    using self_conversion [OF k] q by blast
  have 5: "convert ''Temperature'' ''Celsius'' ''Celsius'' NaN = Inr NaN"
    using self_conversion [OF c] by blast
  from h 1 2 p 3 k q 4 c 5 show ?thesis by (intro conjI)
qed

theorem round_trip_witness:
  "has_unit ''Length'' ''Miles'' \<and> has_unit ''Length'' ''Feet''
   \<and> (\<exists>r. convert_exact ''Length'' ''Miles'' ''Feet'' 3 = Inr r
            \<and> convert_exact ''Length'' ''Feet'' ''Miles'' r = Inr 3)
   \<and> ''Length'' \<noteq> ''Temperature'' \<and> pow2 (- 900) \<le> 3 \<and> 3 \<le> pow2 900
   \<and> (\<exists>w r. convert ''Length'' ''Miles'' ''Feet'' (Finite False 3) = Inr (Finite False w)
              \<and> convert ''Length'' ''Feet'' ''Miles'' (Finite False w) = Inr (Finite False r)
              \<and> \<bar>r - 3\<bar> \<le> 3 / 2 ^ 50)
   \<and> has_unit ''Temperature'' ''Fahrenheit'' \<and> has_unit ''Temperature'' ''Kelvin''
   \<and> (0::rat) \<le> 451 \<and> 451 \<le> pow2 900
   \<and> (\<exists>sw w sr r.
         convert ''Temperature'' ''Fahrenheit'' ''Kelvin'' (Finite False 451) = Inr (Finite sw w)
         \<and> convert ''Temperature'' ''Kelvin'' ''Fahrenheit'' (Finite sw w) = Inr (Finite sr r)
         \<and> \<bar>signed sr r - signed False 451\<bar> \<le> (451 + 300) / 2 ^ 44)"
proof -
  have h: "has_unit ''Length'' ''Miles''" "has_unit ''Length'' ''Feet''"
    by (simp_all add: has_unit_length)
  have n: "''Length'' \<noteq> ''Temperature''" by simp
  have p: "pow2 (- 900) \<le> 3" "3 \<le> pow2 900" by (simp_all add: pow2_def)
  note t = round_trip [OF h]
  have 1: "\<exists>r. convert_exact ''Length'' ''Miles'' ''Feet'' 3 = Inr r
            \<and> convert_exact ''Length'' ''Feet'' ''Miles'' r = Inr 3"
    using t by blast
  have 2: "\<exists>w r. convert ''Length'' ''Miles'' ''Feet'' (Finite False 3) = Inr (Finite False w)
              \<and> convert ''Length'' ''Feet'' ''Miles'' (Finite False w) = Inr (Finite False r)
              \<and> \<bar>r - 3\<bar> \<le> 3 / 2 ^ 50"
    using t n p by blast
  have k: "has_unit ''Temperature'' ''Fahrenheit''" "has_unit ''Temperature'' ''Kelvin''"
    by (simp_all add: temperature_units)
  have q: "(0::rat) \<le> 451" "451 \<le> pow2 900" by (simp_all add: pow2_def)
  have 3: "\<exists>sw w sr r.
         convert ''Temperature'' ''Fahrenheit'' ''Kelvin'' (Finite False 451) = Inr (Finite sw w)
         \<and> convert ''Temperature'' ''Kelvin'' ''Fahrenheit'' (Finite sw w) = Inr (Finite sr r)
         \<and> \<bar>signed sr r - signed False 451\<bar> \<le> (451 + 300) / 2 ^ 44"
    using round_trip [OF k] q by blast
  from h 1 n p 2 k q 3 show ?thesis by (intro conjI)
qed

end
